theory Spec2Isabelle
  imports Main "HOL-Library.Multiset"
begin

section \<open>Data consumed by the config shard validator\<close>

text \<open>
  The validator (cmd/config-shard-validator/main.go) reads three things that other
  packages produce: the \<open>config_updater.maps\<close> table of the Prow plugin configuration,
  the files of the CI Operator configuration tree, and the files of the Prow job
  configuration tree. Only the fields that main.go reads are kept.
\<close>

text \<open>
  \<open>plugins.ConfigMapSpec\<close>: the value type of \<open>pcfg.ConfigUpdater.Maps\<close>.
  \<open>Clusters\<close> is a Go \<open>map[string][]string\<close>, \<open>GZIP\<close> is a \<open>*bool\<close> (\<open>None\<close> is nil).
\<close>

record ConfigMapSpec =
  Name :: string
  Clusters :: "string \<rightharpoonup> string list"
  GZIP :: "bool option"

text \<open>
  \<open>config.Info\<close> of a CI Operator configuration file. \<open>Basename\<close> and \<open>ConfigMapName\<close>
  are methods of package pkg/config, which is outside the checked file; the record
  carries the values they return for the file.
\<close>

record config_Info =
  Filename :: string
  Basename :: string
  ConfigMapName :: string

text \<open>\<open>jobconfig.Info\<close> of a Prow job configuration file, in the same way.\<close>

record jobconfig_Info =
  job_Filename :: string
  job_ConfigMapName :: string

text \<open>The part of \<open>v1.PodSpec\<close> that a job carries: containers and their environment.\<close>

record ConfigMapKeySelector =
  ref_Name :: string
  Key :: string

record EnvVarSource =
  ConfigMapKeyRef :: "ConfigMapKeySelector option"

record EnvVar =
  env_Name :: string
  ValueFrom :: "EnvVarSource option"

record Container =
  Env :: "EnvVar list"

record PodSpec =
  InitContainers :: "Container list"
  Containers :: "Container list"

text \<open>
  The \<open>JobBase\<close> part shared by presubmits, postsubmits and periodics: the job name and
  the optional pod specification (\<open>Spec\<close> is a pointer, \<open>None\<close> is nil).
\<close>

record job =
  job_Name :: string
  Spec :: "PodSpec option"

text \<open>
  \<open>prowconfig.JobConfig\<close>. The two static tables are Go maps from repository to job
  list; they are given as association lists in the order in which \<open>range\<close> visits them.
\<close>

record JobConfig =
  PresubmitsStatic :: "(string \<times> job list) list"
  PostsubmitsStatic :: "(string \<times> job list) list"
  Periodics :: "job list"

text \<open>\<open>pathWithConfig\<close> of main.go.\<close>

record pathWithConfig =
  path :: string
  configMap :: string

section \<open>Log records\<close>

text \<open>
  Every logging call of main.go is one constructor; its arguments are the fields of the
  logger the call is made on, followed by the arguments of the format string.
\<close>

datatype event =
    ClusterAliasNotAllowed string
    \<comment> \<open>line 128, Error: source-file\<close>
  | GlobMatchFailed string string string
    \<comment> \<open>line 135, Warn: source-file, glob, error\<close>
  | JobConfigCheckFailed string string string
    \<comment> \<open>line 138, Error: source-file, glob, error\<close>
  | GzipNotEnabled string string
    \<comment> \<open>line 141, Error: source-file, glob\<close>
  | MultipleConfigMaps string string string string
    \<comment> \<open>line 146, Error: source-file, glob, then the two names of the message\<close>
  | UnexpectedConfigMap string string string string
    \<comment> \<open>line 150, Error: source-file, glob, then the two names of the message\<close>
  | NoConfigMap string
    \<comment> \<open>line 158, Error: source-file\<close>
  | UnknownKey string string nat string
    \<comment> \<open>line 181, Error: source-file, job, container, key\<close>
  | InvalidShard string string nat string string string
    \<comment> \<open>line 189, Error: source-file, job, container, key, got, expected\<close>
  | FatalExit string
    \<comment> \<open>lines 84, 119 and 164, Fatal\<close>



section \<open>checkSpec\<close>

text \<open>
  The body of the inner loop of \<open>checkSpec\<close> (lines 172 to 192) for one environment
  entry of the container with index \<open>containerIndex\<close>. The state is the local
  \<open>foundFailures\<close> and the log written so far.
\<close>

definition check_env ::
  "string \<Rightarrow> string \<Rightarrow> (string \<rightharpoonup> config_Info) \<Rightarrow> nat \<Rightarrow> EnvVar
    \<Rightarrow> bool \<times> event list \<Rightarrow> bool \<times> event list" where
  "check_env relPath name configInfos containerIndex env s =
    (if env_Name env = ''CONFIG_SPEC'' then
       (case ValueFrom env of
          None \<Rightarrow> s
        | Some vf \<Rightarrow>
          (case ConfigMapKeyRef vf of
             None \<Rightarrow> s
           | Some r \<Rightarrow>
             (case configInfos (Key r) of
                None \<Rightarrow> (True, snd s @ [UnknownKey relPath name containerIndex (Key r)])
              | Some configInfo \<Rightarrow>
                  if ref_Name r \<noteq> ConfigMapName configInfo
                  then (True, snd s @ [InvalidShard relPath name containerIndex (Key r)
                                        (ref_Name r) (ConfigMapName configInfo)])
                  else s)))
     else s)"

definition check_container ::
  "string \<Rightarrow> string \<Rightarrow> (string \<rightharpoonup> config_Info) \<Rightarrow> nat \<times> Container
    \<Rightarrow> bool \<times> event list \<Rightarrow> bool \<times> event list" where
  "check_container relPath name configInfos ic s =
     fold (check_env relPath name configInfos (fst ic)) (Env (snd ic)) s"

text \<open>
  \<open>checkSpec\<close> (lines 168 to 196): the log is passed in and returned with the records
  the call has written; the returned flag is the function's result.
\<close>

definition checkSpec ::
  "PodSpec \<Rightarrow> string \<Rightarrow> string \<Rightarrow> (string \<rightharpoonup> config_Info) \<Rightarrow> event list
    \<Rightarrow> bool \<times> event list" where
  "checkSpec spec relPath name configInfos lg =
     fold (check_container relPath name configInfos)
       (enumerate 0 (Containers spec)) (False, lg)"

section \<open>Glob matching\<close>

text \<open>
  \<open>zglob.Match\<close> (github.com/mattn/go-zglob) is a library outside this repository. The
  checker is parametric in it: a matcher takes the pattern and the name and returns
  the Go pair \<open>(matched, err)\<close>, with \<open>None\<close> for a nil error.
\<close>

type_synonym matcher = "string \<Rightarrow> string \<Rightarrow> bool \<times> string option"

text \<open>\<open>prowv1.DefaultClusterAlias\<close>, a constant of k8s.io/test-infra.\<close>

definition DefaultClusterAlias :: string where
  "DefaultClusterAlias = ''default''"

section \<open>The partition check of main\<close>

text \<open>
  The validation state of \<open>main\<close>: the flag \<open>foundFailures\<close> (line 87) and the log.
  While one path is checked (lines 122 to 161) the locals \<open>matchesAny\<close> and
  \<open>matchedMap\<close> are added.
\<close>

record checker =
  foundFailures :: bool
  entries :: "event list"

record scan = checker +
  matchesAny :: bool
  matchedMap :: string

text \<open>A call that logs below the Error level: nothing but the log changes.\<close>

definition log_event :: "event \<Rightarrow> 'a checker_scheme \<Rightarrow> 'a checker_scheme" where
  "log_event ev s = s\<lparr>entries := entries s @ [ev]\<rparr>"

text \<open>An Error call followed by \<open>foundFailures = true\<close>.\<close>

definition record_failure :: "event \<Rightarrow> 'a checker_scheme \<Rightarrow> 'a checker_scheme" where
  "record_failure ev s = (log_event ev s)\<lparr>foundFailures := True\<rparr>"

text \<open>Lines 127 to 130.\<close>

definition check_alias :: "pathWithConfig \<Rightarrow> ConfigMapSpec \<Rightarrow> scan \<Rightarrow> scan" where
  "check_alias pathToCheck updateConfig s =
     (if Clusters updateConfig DefaultClusterAlias \<noteq> None
      then record_failure (ClusterAliasNotAllowed (path pathToCheck)) s
      else s)"

text \<open>Lines 134 to 136: the error of the match against the path is only a warning.\<close>

definition warn_match :: "pathWithConfig \<Rightarrow> string \<Rightarrow> string option \<Rightarrow> scan \<Rightarrow> scan" where
  "warn_match pathToCheck glob matchErr s =
     (case matchErr of
        Some e \<Rightarrow> log_event (GlobMatchFailed (path pathToCheck) glob e) s
      | None \<Rightarrow> s)"

text \<open>Lines 137 to 143: the match against the job configuration root.\<close>

definition check_gzip ::
  "matcher \<Rightarrow> pathWithConfig \<Rightarrow> string \<Rightarrow> ConfigMapSpec \<Rightarrow> scan \<Rightarrow> scan" where
  "check_gzip M pathToCheck glob updateConfig s =
     (case M glob ''ci-operator/jobs'' of
        (jobConfigMatch, Some e) \<Rightarrow>
          record_failure (JobConfigCheckFailed (path pathToCheck) glob e) s
      | (jobConfigMatch, None) \<Rightarrow>
          if jobConfigMatch \<and> (case GZIP updateConfig of None \<Rightarrow> True | Some b \<Rightarrow> \<not> b)
          then record_failure (GzipNotEnabled (path pathToCheck) glob) s
          else s)"

text \<open>Lines 145 to 154: the body of \<open>if matches\<close>.\<close>

definition on_match :: "pathWithConfig \<Rightarrow> string \<Rightarrow> ConfigMapSpec \<Rightarrow> scan \<Rightarrow> scan" where
  "on_match pathToCheck glob updateConfig s =
     (let s1 = (if matchesAny s
                then record_failure (MultipleConfigMaps (path pathToCheck) glob
                       (matchedMap s) (configMap pathToCheck)) s
                else s);
          s2 = (if Name updateConfig \<noteq> configMap pathToCheck
                then record_failure (UnexpectedConfigMap (path pathToCheck) glob
                       (Name updateConfig) (configMap pathToCheck)) s1
                else s1)
      in s2\<lparr>matchesAny := True, matchedMap := configMap pathToCheck\<rparr>)"

text \<open>
  One iteration of \<open>for glob, updateConfig := range pcfg.ConfigUpdater.Maps\<close>
  (lines 126 to 156).
\<close>

definition rule_step ::
  "matcher \<Rightarrow> pathWithConfig \<Rightarrow> string \<times> ConfigMapSpec \<Rightarrow> scan \<Rightarrow> scan" where
  "rule_step M pathToCheck rule s =
     (let glob = fst rule;
          updateConfig = snd rule;
          s1 = check_alias pathToCheck updateConfig s;
          matches = fst (M glob (path pathToCheck));
          matchErr = snd (M glob (path pathToCheck));
          s2 = warn_match pathToCheck glob matchErr s1;
          s3 = check_gzip M pathToCheck glob updateConfig s2
      in if matches then on_match pathToCheck glob updateConfig s3 else s3)"

text \<open>
  One iteration of \<open>for _, pathToCheck := range pathsToCheck\<close> (lines 122 to 161).
  \<open>maps\<close> is \<open>pcfg.ConfigUpdater.Maps\<close>, a Go map, as the list of its entries in the
  order in which this \<open>range\<close> visits them.
\<close>

definition check_path ::
  "matcher \<Rightarrow> (string \<times> ConfigMapSpec) list \<Rightarrow> pathWithConfig \<Rightarrow> checker \<Rightarrow> checker" where
  "check_path M maps pathToCheck st =
     (let s = fold (rule_step M pathToCheck) maps
                \<lparr>foundFailures = foundFailures st, entries = entries st,
                 matchesAny = False, matchedMap = []\<rparr>;
          s' = (if \<not> matchesAny s
                then record_failure (NoConfigMap (path pathToCheck)) s
                else s)
      in \<lparr>foundFailures = foundFailures s', entries = entries s'\<rparr>)"

definition check_paths ::
  "matcher \<Rightarrow> (string \<times> ConfigMapSpec) list \<Rightarrow> pathWithConfig list \<Rightarrow> checker \<Rightarrow> checker"
  where
  "check_paths M maps pathsToCheck st = fold (check_path M maps) pathsToCheck st"

section \<open>The two directory walks of main\<close>

text \<open>
  \<open>config.OperateOnCIOperatorConfigDir\<close> and \<open>jobconfig.OperateOnJobConfigDir\<close> call
  the callback once per file and return an error or nil. A walk is given by the files
  the callback has been called on, in order, and the error returned after them.
  \<open>rel\<close> stands for \<open>filepath.Rel(o.releaseRepoDir, _)\<close>, whose error is dropped.
\<close>

type_synonym 'a walk = "'a list \<times> string option"

text \<open>The callback of lines 77 to 83.\<close>

definition ciop_callback ::
  "(string \<Rightarrow> string) \<Rightarrow> config_Info
    \<Rightarrow> pathWithConfig list \<times> (string \<rightharpoonup> config_Info)
    \<Rightarrow> pathWithConfig list \<times> (string \<rightharpoonup> config_Info)" where
  "ciop_callback rel info acc =
     (fst acc @ [\<lparr>path = rel (Filename info), configMap = ConfigMapName info\<rparr>],
      (snd acc)(Basename info \<mapsto> info))"

text \<open>Lines 94 to 98 (and 103 to 107, 111 to 115) for one job.\<close>

definition check_job ::
  "string \<Rightarrow> (string \<rightharpoonup> config_Info) \<Rightarrow> job \<Rightarrow> checker \<Rightarrow> checker" where
  "check_job relPath configInfos j st =
     (case Spec j of
        None \<Rightarrow> st
      | Some spec \<Rightarrow>
          (case checkSpec spec relPath (job_Name j) configInfos (entries st) of
             (foundFailure, lg) \<Rightarrow>
               \<lparr>foundFailures = (if foundFailure then True else foundFailures st),
                entries = lg\<rparr>))"

text \<open>The callback of lines 88 to 118.\<close>

definition job_callback ::
  "(string \<Rightarrow> string) \<Rightarrow> (string \<rightharpoonup> config_Info) \<Rightarrow> JobConfig \<times> jobconfig_Info
    \<Rightarrow> pathWithConfig list \<times> checker \<Rightarrow> pathWithConfig list \<times> checker" where
  "job_callback rel configInfos file acc =
     (let jobConfig = fst file;
          info = snd file;
          relPath = rel (job_Filename info);
          pathsToCheck = fst acc @ [\<lparr>path = relPath, configMap = job_ConfigMapName info\<rparr>];
          st1 = fold (\<lambda>presubmits. fold (check_job relPath configInfos) (snd presubmits))
                  (PresubmitsStatic jobConfig) (snd acc);
          st2 = fold (\<lambda>postsubmits. fold (check_job relPath configInfos) (snd postsubmits))
                  (PostsubmitsStatic jobConfig) st1;
          st3 = fold (check_job relPath configInfos) (Periodics jobConfig) st2
      in (pathsToCheck, st3))"

text \<open>
  \<open>main\<close> from line 75 on, after the options and the plugin configuration have been
  loaded. The result is the exit code and the log; \<open>logrus.Fatal\<close> logs and exits with
  code 1.
\<close>

definition main ::
  "matcher \<Rightarrow> (string \<Rightarrow> string) \<Rightarrow> (string \<times> ConfigMapSpec) list
    \<Rightarrow> config_Info walk \<Rightarrow> (JobConfig \<times> jobconfig_Info) walk \<Rightarrow> nat \<times> event list" where
  "main M rel maps ciop jobs =
     (case fold (ciop_callback rel) (fst ciop) ([], Map.empty) of
        (paths1, configInfos) \<Rightarrow>
          (case snd ciop of
             Some e \<Rightarrow> (1, [FatalExit ''Could not load CI Operator configurations.''])
           | None \<Rightarrow>
               (case fold (job_callback rel configInfos) (fst jobs)
                       (paths1, \<lparr>foundFailures = False, entries = []\<rparr>) of
                  (paths2, st) \<Rightarrow>
                    (case snd jobs of
                       Some e \<Rightarrow>
                         (1, entries st @ [FatalExit ''Could not load Prow job configurations.''])
                     | None \<Rightarrow>
                         (let st' = check_paths M maps paths2 st
                          in if foundFailures st'
                             then (1, entries st' @ [FatalExit
                                    ''Found configurations that do not belong to the correct auto-updating config''])
                             else (0, entries st'))))))"

text \<open>The jobs of one job configuration file, in the order in which lines 92 to 116 visit them.\<close>

definition jobs_of :: "JobConfig \<Rightarrow> job list" where
  "jobs_of jobConfig =
     concat (map snd (PresubmitsStatic jobConfig))
       @ concat (map snd (PostsubmitsStatic jobConfig))
       @ Periodics jobConfig"

section \<open>Matchers for concrete runs\<close>

text \<open>
  For runs on concrete inputs the matcher parameter is instantiated with a small
  wildcard matcher: \<open>*\<close> stands for any run of characters other than \<open>/\<close>, every other
  character for itself, and no error is ever reported. It stands in for
  \<open>zglob.Match\<close> in the runs below only, on patterns with at most one wildcard, a
  star inside one path segment below a literal directory.
\<close>

fun wild :: "string \<Rightarrow> string \<Rightarrow> bool" where
  "wild [] [] = True"
| "wild [] (c # cs) = False"
| "wild (p # ps) [] = (p = CHR ''*'' \<and> wild ps [])"
| "wild (p # ps) (c # cs) =
     (if p = CHR ''*''
      then wild ps (c # cs) \<or> (c \<noteq> CHR ''/'' \<and> wild (p # ps) cs)
      else p = c \<and> wild ps cs)"

definition demo_Match :: matcher where
  "demo_Match pattern name = (wild pattern name, None)"


section \<open>Concrete inputs\<close>

text \<open>
  The state of a path check in which nothing has been recorded; the records that one
  rule writes for one path, whatever was recorded before, are read off a step from it.
\<close>

definition fresh :: scan where
  "fresh = \<lparr>foundFailures = False, entries = [], matchesAny = False, matchedMap = []\<rparr>"

text \<open>The state of \<open>main\<close> at line 87.\<close>

definition start :: checker where
  "start = \<lparr>foundFailures = False, entries = []\<rparr>"

text \<open>Two bundles with compression enabled and no cluster aliases.\<close>

definition BundleA :: ConfigMapSpec where
  "BundleA = \<lparr>Name = ''BundleA'', Clusters = Map.empty, GZIP = Some True\<rparr>"

definition BundleB :: ConfigMapSpec where
  "BundleB = \<lparr>Name = ''BundleB'', Clusters = Map.empty, GZIP = Some True\<rparr>"

text \<open>A bundle that names the default cluster alias, and one without the gzip flag.\<close>

definition BundleDefault :: ConfigMapSpec where
  "BundleDefault =
     \<lparr>Name = ''BundleA'', Clusters = [''default'' \<mapsto> [''ci'']], GZIP = Some True\<rparr>"

definition BundleJobs :: ConfigMapSpec where
  "BundleJobs = \<lparr>Name = ''job-config'', Clusters = Map.empty, GZIP = None\<rparr>"

definition shardX :: ConfigMapSpec where
  "shardX = \<lparr>Name = ''BundleX'', Clusters = Map.empty, GZIP = None\<rparr>"

definition shardY :: ConfigMapSpec where
  "shardY = \<lparr>Name = ''BundleY'', Clusters = Map.empty, GZIP = None\<rparr>"

text \<open>The file \<open>dir/foo.yaml\<close>, expected in \<open>BundleA\<close>.\<close>

definition foo_yaml :: pathWithConfig where
  "foo_yaml = \<lparr>path = ''dir/foo.yaml'', configMap = ''BundleA''\<rparr>"

text \<open>
  An environment entry that injects key \<open>k1\<close> from bundle \<open>BundleX\<close>; two
  configuration files with the same key \<open>k1\<close>, one of bundle \<open>BundleX\<close> and one of
  bundle \<open>BundleY\<close>; and a job file whose only job has that entry in its container.
\<close>

definition env_k1 :: EnvVar where
  "env_k1 = \<lparr>env_Name = ''CONFIG_SPEC'',
     ValueFrom = Some \<lparr>ConfigMapKeyRef = Some \<lparr>ref_Name = ''BundleX'', Key = ''k1''\<rparr>\<rparr>\<rparr>"

definition a_k1 :: config_Info where
  "a_k1 = \<lparr>Filename = ''ci-operator/config/org/a/k1'', Basename = ''k1'',
     ConfigMapName = ''BundleX''\<rparr>"

definition info_k1 :: config_Info where
  "info_k1 = \<lparr>Filename = ''ci-operator/config/org/repo/k1'', Basename = ''k1'',
     ConfigMapName = ''BundleY''\<rparr>"

definition job_k1 :: "JobConfig \<times> jobconfig_Info" where
  "job_k1 =
     (\<lparr>PresubmitsStatic = [(''org/repo'',
          [\<lparr>job_Name = ''job'',
            Spec = Some \<lparr>InitContainers = [], Containers = [\<lparr>Env = [env_k1]\<rparr>]\<rparr>\<rparr>])],
       PostsubmitsStatic = [], Periodics = []\<rparr>,
      \<lparr>job_Filename = ''ci-operator/jobs/org/repo/j.yaml'', job_ConfigMapName = ''BundleY''\<rparr>)"

definition shards :: "(string \<times> ConfigMapSpec) list" where
  "shards = [(''ci-operator/config/org/a/*'', shardX),
             (''ci-operator/config/org/repo/*'', shardY),
             (''ci-operator/jobs/org/repo/*'', shardY)]"

section \<open>The records of one rule\<close>

text \<open>
  What each part of the loop body does to the four components of the state, then what
  one iteration, the loop over the rules, one path and all paths write. A uniqueness
  record depends on the rules visited before; every other record of a rule is the
  one it writes from the state \<open>fresh\<close>.
\<close>

lemma log_event_fields [simp]:
  "entries (log_event ev s) = entries s @ [ev]"
  "foundFailures (log_event ev s) = foundFailures s"
  by (simp_all add: log_event_def)

lemma log_event_scan [simp]:
  "matchesAny (log_event ev s) = matchesAny s"
  "matchedMap (log_event ev s) = matchedMap s"
  by (simp_all add: log_event_def)

lemma record_failure_fields [simp]:
  "entries (record_failure ev s) = entries s @ [ev]"
  "foundFailures (record_failure ev s) = True"
  by (simp_all add: record_failure_def)

lemma record_failure_scan [simp]:
  "matchesAny (record_failure ev s) = matchesAny s"
  "matchedMap (record_failure ev s) = matchedMap s"
  by (simp_all add: record_failure_def)

lemma check_alias_fields:
  "entries (check_alias p uc s) = entries s @
     (if Clusters uc DefaultClusterAlias \<noteq> None then [ClusterAliasNotAllowed (path p)] else [])"
  "foundFailures (check_alias p uc s) =
     (foundFailures s \<or> Clusters uc DefaultClusterAlias \<noteq> None)"
  "matchesAny (check_alias p uc s) = matchesAny s"
  "matchedMap (check_alias p uc s) = matchedMap s"
  by (simp_all add: check_alias_def)

lemma warn_match_fields:
  "entries (warn_match p g e s) = entries s @
     (case e of Some x \<Rightarrow> [GlobMatchFailed (path p) g x] | None \<Rightarrow> [])"
  "foundFailures (warn_match p g e s) = foundFailures s"
  "matchesAny (warn_match p g e s) = matchesAny s"
  "matchedMap (warn_match p g e s) = matchedMap s"
  by (simp_all add: warn_match_def split: option.splits)

lemma check_gzip_fields:
  "entries (check_gzip M p g uc s) = entries s @
     (case snd (M g ''ci-operator/jobs'') of
        Some e \<Rightarrow> [JobConfigCheckFailed (path p) g e]
      | None \<Rightarrow> if fst (M g ''ci-operator/jobs'') \<and> GZIP uc \<noteq> Some True
                then [GzipNotEnabled (path p) g] else [])"
  "foundFailures (check_gzip M p g uc s) =
     (foundFailures s \<or> snd (M g ''ci-operator/jobs'') \<noteq> None
       \<or> (fst (M g ''ci-operator/jobs'') \<and> GZIP uc \<noteq> Some True))"
  "matchesAny (check_gzip M p g uc s) = matchesAny s"
  "matchedMap (check_gzip M p g uc s) = matchedMap s"
  by (auto simp add: check_gzip_def split: option.splits prod.splits)

lemma on_match_fields:
  "entries (on_match p g uc s) = entries s @
     (if matchesAny s then [MultipleConfigMaps (path p) g (matchedMap s) (configMap p)] else []) @
     (if Name uc \<noteq> configMap p then [UnexpectedConfigMap (path p) g (Name uc) (configMap p)] else [])"
  "foundFailures (on_match p g uc s) =
     (foundFailures s \<or> matchesAny s \<or> Name uc \<noteq> configMap p)"
  "matchesAny (on_match p g uc s) = True"
  "matchedMap (on_match p g uc s) = configMap p"
  by (simp_all add: on_match_def Let_def)

lemmas part_fields = check_alias_fields warn_match_fields check_gzip_fields on_match_fields

lemma rule_step_matchesAny:
  "matchesAny (rule_step M p r s) = (matchesAny s \<or> fst (M (fst r) (path p)))"
  by (simp add: rule_step_def Let_def part_fields)

lemma rule_step_matchedMap:
  "matchedMap (rule_step M p r s) = (if fst (M (fst r) (path p)) then configMap p else matchedMap s)"
  by (simp add: rule_step_def Let_def part_fields)

lemma rule_step_entries:
  "entries (rule_step M p r s) = entries s @
     (if Clusters (snd r) DefaultClusterAlias \<noteq> None then [ClusterAliasNotAllowed (path p)] else []) @
     (case snd (M (fst r) (path p)) of Some x \<Rightarrow> [GlobMatchFailed (path p) (fst r) x] | None \<Rightarrow> []) @
     (case snd (M (fst r) ''ci-operator/jobs'') of
        Some e \<Rightarrow> [JobConfigCheckFailed (path p) (fst r) e]
      | None \<Rightarrow> if fst (M (fst r) ''ci-operator/jobs'') \<and> GZIP (snd r) \<noteq> Some True
                then [GzipNotEnabled (path p) (fst r)] else []) @
     (if fst (M (fst r) (path p)) \<and> matchesAny s
      then [MultipleConfigMaps (path p) (fst r) (matchedMap s) (configMap p)] else []) @
     (if fst (M (fst r) (path p)) \<and> Name (snd r) \<noteq> configMap p
      then [UnexpectedConfigMap (path p) (fst r) (Name (snd r)) (configMap p)] else [])"
  by (simp add: rule_step_def Let_def part_fields)

lemma rule_step_foundFailures:
  "foundFailures (rule_step M p r s) =
     (foundFailures s \<or> Clusters (snd r) DefaultClusterAlias \<noteq> None
       \<or> snd (M (fst r) ''ci-operator/jobs'') \<noteq> None
       \<or> (fst (M (fst r) ''ci-operator/jobs'') \<and> GZIP (snd r) \<noteq> Some True)
       \<or> (fst (M (fst r) (path p)) \<and> (matchesAny s \<or> Name (snd r) \<noteq> configMap p)))"
  by (auto simp add: rule_step_def Let_def part_fields)

lemma rule_step_set:
  "set (entries (rule_step M p r s)) =
     set (entries s) \<union> set (entries (rule_step M p r fresh))
       \<union> (if fst (M (fst r) (path p)) \<and> matchesAny s
          then {MultipleConfigMaps (path p) (fst r) (matchedMap s) (configMap p)} else {})"
  by (auto simp add: rule_step_entries fresh_def split: option.splits)

lemma rule_step_failed:
  "foundFailures (rule_step M p r s) =
     (foundFailures s \<or> foundFailures (rule_step M p r fresh)
       \<or> (fst (M (fst r) (path p)) \<and> matchesAny s))"
  by (auto simp add: rule_step_foundFailures fresh_def)

lemma rule_step_fresh_no_multi:
  "MultipleConfigMaps f g a b \<notin> set (entries (rule_step M p r fresh))"
  by (simp add: rule_step_entries fresh_def split: option.splits)


lemma fold_matchesAny:
  "matchesAny (fold (rule_step M p) rs s) =
     (matchesAny s \<or> (\<exists>r\<in>set rs. fst (M (fst r) (path p))))"
  by (induction rs arbitrary: s) (auto simp add: rule_step_matchesAny)

lemma fold_matchedMap:
  "matchedMap (fold (rule_step M p) rs s) =
     (if \<exists>r\<in>set rs. fst (M (fst r) (path p)) then configMap p else matchedMap s)"
  by (induction rs arbitrary: s) (auto simp add: rule_step_matchedMap)

lemma fold_entries_other:
  assumes "\<And>f g a b. ev \<noteq> MultipleConfigMaps f g a b"
  shows "ev \<in> set (entries (fold (rule_step M p) rs s)) \<longleftrightarrow>
     ev \<in> set (entries s) \<or> (\<exists>r\<in>set rs. ev \<in> set (entries (rule_step M p r fresh)))"
proof (induction rs arbitrary: s)
  case Nil
  show ?case by simp
next
  case (Cons r rs)
  have "ev \<in> set (entries (rule_step M p r s)) \<longleftrightarrow>
      ev \<in> set (entries s) \<or> ev \<in> set (entries (rule_step M p r fresh))"
    using assms by (subst rule_step_set) auto
  with Cons.IH [of "rule_step M p r s"] show ?case by auto
qed

lemma fold_entries_multi:
  "(\<exists>g. MultipleConfigMaps f g a b \<in> set (entries (fold (rule_step M p) rs s))) \<longleftrightarrow>
     (\<exists>g. MultipleConfigMaps f g a b \<in> set (entries s))
     \<or> (f = path p \<and> b = configMap p
        \<and> ((matchesAny s \<and> a = matchedMap s
              \<and> 1 \<le> length (filter (\<lambda>r. fst (M (fst r) (path p))) rs))
            \<or> (a = configMap p \<and> 2 \<le> length (filter (\<lambda>r. fst (M (fst r) (path p))) rs))))"
proof (induction rs arbitrary: s)
  case Nil
  show ?case by simp
next
  case (Cons r rs)
  have step: "(\<exists>g. MultipleConfigMaps f g a b \<in> set (entries (rule_step M p r s))) \<longleftrightarrow>
      (\<exists>g. MultipleConfigMaps f g a b \<in> set (entries s))
      \<or> (fst (M (fst r) (path p)) \<and> matchesAny s
          \<and> f = path p \<and> a = matchedMap s \<and> b = configMap p)"
    by (subst rule_step_set) (auto simp add: rule_step_fresh_no_multi)
  show ?case
  proof (cases "fst (M (fst r) (path p))")
    case True
    with Cons.IH [of "rule_step M p r s"] step show ?thesis
      by (simp add: rule_step_matchesAny rule_step_matchedMap) (auto simp add: Suc_le_eq)
  next
    case False
    with Cons.IH [of "rule_step M p r s"] step show ?thesis
      by (simp add: rule_step_matchesAny rule_step_matchedMap)
  qed
qed

lemma fold_foundFailures:
  "foundFailures (fold (rule_step M p) rs s) \<longleftrightarrow>
     foundFailures s \<or> (\<exists>r\<in>set rs. foundFailures (rule_step M p r fresh))
     \<or> (matchesAny s \<and> 1 \<le> length (filter (\<lambda>r. fst (M (fst r) (path p))) rs))
     \<or> 2 \<le> length (filter (\<lambda>r. fst (M (fst r) (path p))) rs)"
proof (induction rs arbitrary: s)
  case Nil
  show ?case by simp
next
  case (Cons r rs)
  show ?case
  proof (cases "fst (M (fst r) (path p))")
    case True
    with Cons.IH [of "rule_step M p r s"] rule_step_failed [of M p r s] show ?thesis
      by (auto simp add: rule_step_matchesAny Suc_le_eq)
  next
    case False
    with Cons.IH [of "rule_step M p r s"] rule_step_failed [of M p r s] show ?thesis
      by (auto simp add: rule_step_matchesAny)
  qed
qed


lemma check_path_entries_other:
  assumes "\<And>f g a b. ev \<noteq> MultipleConfigMaps f g a b"
  shows "ev \<in> set (entries (check_path M rs p st)) \<longleftrightarrow>
     ev \<in> set (entries st) \<or> (\<exists>r\<in>set rs. ev \<in> set (entries (rule_step M p r fresh)))
     \<or> (ev = NoConfigMap (path p) \<and> \<not> (\<exists>r\<in>set rs. fst (M (fst r) (path p))))"
  using fold_entries_other [OF assms, of M p rs
      "\<lparr>foundFailures = foundFailures st, entries = entries st,
        matchesAny = False, matchedMap = []\<rparr>"]
  by (auto simp add: check_path_def Let_def fold_matchesAny)

lemma check_path_entries_multi:
  "(\<exists>g. MultipleConfigMaps f g a b \<in> set (entries (check_path M rs p st))) \<longleftrightarrow>
     (\<exists>g. MultipleConfigMaps f g a b \<in> set (entries st))
     \<or> (f = path p \<and> a = configMap p \<and> b = configMap p
        \<and> 2 \<le> length (filter (\<lambda>r. fst (M (fst r) (path p))) rs))"
  using fold_entries_multi [of f a b M p rs
      "\<lparr>foundFailures = foundFailures st, entries = entries st,
        matchesAny = False, matchedMap = []\<rparr>"]
  by (auto simp add: check_path_def Let_def)

lemma check_path_foundFailures:
  "foundFailures (check_path M rs p st) \<longleftrightarrow>
     foundFailures st \<or> (\<exists>r\<in>set rs. foundFailures (rule_step M p r fresh))
     \<or> 2 \<le> length (filter (\<lambda>r. fst (M (fst r) (path p))) rs)
     \<or> \<not> (\<exists>r\<in>set rs. fst (M (fst r) (path p)))"
  using fold_foundFailures [of M p rs
      "\<lparr>foundFailures = foundFailures st, entries = entries st,
        matchesAny = False, matchedMap = []\<rparr>"]
  by (auto simp add: check_path_def Let_def fold_matchesAny)


lemma check_paths_entries_other:
  assumes "\<And>f g a b. ev \<noteq> MultipleConfigMaps f g a b"
  shows "ev \<in> set (entries (check_paths M rs ps st)) \<longleftrightarrow>
     ev \<in> set (entries st)
     \<or> (\<exists>p\<in>set ps. (\<exists>r\<in>set rs. ev \<in> set (entries (rule_step M p r fresh)))
            \<or> (ev = NoConfigMap (path p) \<and> \<not> (\<exists>r\<in>set rs. fst (M (fst r) (path p)))))"
  unfolding check_paths_def
proof (induction ps arbitrary: st)
  case Nil
  show ?case by simp
next
  case (Cons p ps)
  show ?case
    using Cons.IH [of "check_path M rs p st"] check_path_entries_other [OF assms, of M rs p st]
    by auto
qed

lemma check_paths_entries_multi:
  "(\<exists>g. MultipleConfigMaps f g a b \<in> set (entries (check_paths M rs ps st))) \<longleftrightarrow>
     (\<exists>g. MultipleConfigMaps f g a b \<in> set (entries st))
     \<or> (\<exists>p\<in>set ps. f = path p \<and> a = configMap p \<and> b = configMap p
            \<and> 2 \<le> length (filter (\<lambda>r. fst (M (fst r) (path p))) rs))"
  unfolding check_paths_def
proof (induction ps arbitrary: st)
  case Nil
  show ?case by simp
next
  case (Cons p ps)
  show ?case
    using Cons.IH [of "check_path M rs p st"] check_path_entries_multi [of f a b M rs p st]
    by auto
qed

lemma check_paths_foundFailures:
  "foundFailures (check_paths M rs ps st) \<longleftrightarrow>
     foundFailures st
     \<or> (\<exists>p\<in>set ps. (\<exists>r\<in>set rs. foundFailures (rule_step M p r fresh))
            \<or> 2 \<le> length (filter (\<lambda>r. fst (M (fst r) (path p))) rs)
            \<or> \<not> (\<exists>r\<in>set rs. fst (M (fst r) (path p))))"
  unfolding check_paths_def
proof (induction ps arbitrary: st)
  case Nil
  show ?case by simp
next
  case (Cons p ps)
  show ?case
    using Cons.IH [of "check_path M rs p st"] check_path_foundFailures [of M rs p st]
    by auto
qed

lemma fresh_entries:
  "entries (rule_step M p r fresh) =
     (if Clusters (snd r) DefaultClusterAlias \<noteq> None then [ClusterAliasNotAllowed (path p)] else []) @
     (case snd (M (fst r) (path p)) of Some x \<Rightarrow> [GlobMatchFailed (path p) (fst r) x] | None \<Rightarrow> []) @
     (case snd (M (fst r) ''ci-operator/jobs'') of
        Some e \<Rightarrow> [JobConfigCheckFailed (path p) (fst r) e]
      | None \<Rightarrow> if fst (M (fst r) ''ci-operator/jobs'') \<and> GZIP (snd r) \<noteq> Some True
                then [GzipNotEnabled (path p) (fst r)] else []) @
     (if fst (M (fst r) (path p)) \<and> Name (snd r) \<noteq> configMap p
      then [UnexpectedConfigMap (path p) (fst r) (Name (snd r)) (configMap p)] else [])"
  by (simp add: rule_step_entries fresh_def)

lemma fresh_foundFailures:
  "foundFailures (rule_step M p r fresh) =
     (Clusters (snd r) DefaultClusterAlias \<noteq> None
       \<or> snd (M (fst r) ''ci-operator/jobs'') \<noteq> None
       \<or> (fst (M (fst r) ''ci-operator/jobs'') \<and> GZIP (snd r) \<noteq> Some True)
       \<or> (fst (M (fst r) (path p)) \<and> Name (snd r) \<noteq> configMap p))"
  by (simp add: rule_step_foundFailures fresh_def)

section \<open>The records of the partition check\<close>

text \<open>
  The coverage record, the number of matching rules under a reordering of the rule
  list, and the two names of a uniqueness record.
\<close>

lemma check_paths_coverage:
  "NoConfigMap q \<in> set (entries (check_paths M maps pathsToCheck st)) \<longleftrightarrow>
      NoConfigMap q \<in> set (entries st)
      \<or> (\<exists>p\<in>set pathsToCheck. path p = q \<and> (\<forall>r\<in>set maps. \<not> fst (M (fst r) q)))"
proof -
  have "NoConfigMap q \<notin> set (entries (rule_step M p r fresh))" for p r
    by (simp add: fresh_entries split: option.splits)
  then show ?thesis
    by (subst check_paths_entries_other) auto
qed

lemma filter_length_mset:
  assumes "mset xs = mset ys"
  shows "length (filter P xs) = length (filter P ys)"
  using assms by (metis mset_filter size_mset)

lemma uniqueness_record_names:
  assumes "MultipleConfigMaps f g a b \<in> set (entries (check_paths M maps pathsToCheck st))"
  shows "(\<exists>g'. MultipleConfigMaps f g' a b \<in> set (entries st))
     \<or> (\<exists>p\<in>set pathsToCheck. f = path p \<and> a = configMap p \<and> b = configMap p)"
  using assms check_paths_entries_multi [of f a b M maps pathsToCheck st] by blast

section \<open>The walks\<close>

text \<open>
  The configuration walk appends one path per file and overwrites the index entry of
  the file's key. The job walk appends one path per file and writes nothing but
  unknown-key and wrong-shard records, so any property of the log that those two kinds
  of record have is kept by it.
\<close>

lemma ciop_paths:
  "fst (fold (ciop_callback rel) infos acc) =
     fst acc @ map (\<lambda>info. \<lparr>path = rel (Filename info), configMap = ConfigMapName info\<rparr>) infos"
  by (induction infos arbitrary: acc) (simp_all add: ciop_callback_def)

lemma ciop_index_other:
  assumes "\<forall>b\<in>set infos. Basename b \<noteq> k"
  shows "snd (fold (ciop_callback rel) infos acc) k = snd acc k"
  using assms by (induction infos arbitrary: acc) (auto simp add: ciop_callback_def)

lemma fold_keeps:
  assumes "\<And>x s. Q s \<Longrightarrow> Q (f x s)" and "Q s"
  shows "Q (fold f xs s)"
  using assms(2) by (induction xs arbitrary: s) (simp_all add: assms(1))

lemma check_env_keeps:
  assumes "\<And>f j c k. P (UnknownKey f j c k)"
    and "\<And>f j c k g e. P (InvalidShard f j c k g e)"
    and "\<forall>ev\<in>set (snd s). P ev"
  shows "\<forall>ev\<in>set (snd (check_env relPath name configInfos i env s)). P ev"
  using assms by (auto simp add: check_env_def split: option.splits)

lemma checkSpec_keeps:
  assumes "\<And>f j c k. P (UnknownKey f j c k)"
    and "\<And>f j c k g e. P (InvalidShard f j c k g e)"
    and "\<forall>ev\<in>set lg. P ev"
  shows "\<forall>ev\<in>set (snd (checkSpec spec relPath name configInfos lg)). P ev"
proof -
  have conts: "\<forall>ev\<in>set (snd (check_container relPath name configInfos ic s)). P ev"
    if "\<forall>ev\<in>set (snd s). P ev" for ic s
    unfolding check_container_def
    by (rule fold_keeps [where Q = "\<lambda>s. \<forall>ev\<in>set (snd s). P ev"])
      (rule check_env_keeps [OF assms(1,2)], assumption, rule that)
  show ?thesis
    unfolding checkSpec_def
    by (rule fold_keeps [where Q = "\<lambda>s. \<forall>ev\<in>set (snd s). P ev"])
      (rule conts, assumption, simp add: assms(3))
qed

lemma check_job_keeps:
  assumes "\<And>f j c k. P (UnknownKey f j c k)"
    and "\<And>f j c k g e. P (InvalidShard f j c k g e)"
    and "\<forall>ev\<in>set (entries st). P ev"
  shows "\<forall>ev\<in>set (entries (check_job relPath configInfos j st)). P ev"
proof (cases "Spec j")
  case None
  with assms(3) show ?thesis by (simp add: check_job_def)
next
  case (Some spec)
  with checkSpec_keeps [OF assms(1,2,3), of spec relPath "job_Name j" configInfos]
  show ?thesis by (simp add: check_job_def split: prod.splits)
qed

lemma job_walk_keeps:
  assumes "\<And>f j c k. P (UnknownKey f j c k)"
    and "\<And>f j c k g e. P (InvalidShard f j c k g e)"
    and "\<forall>ev\<in>set (entries (snd acc)). P ev"
  shows "\<forall>ev\<in>set (entries (snd (fold (job_callback rel configInfos) files acc))). P ev"
proof -
  have jobs: "\<forall>ev\<in>set (entries (fold (check_job rp configInfos) js st)). P ev"
    if "\<forall>ev\<in>set (entries st). P ev" for rp js st
    by (rule fold_keeps [where Q = "\<lambda>s. \<forall>ev\<in>set (entries s). P ev"])
      (rule check_job_keeps [OF assms(1,2)], assumption, rule that)
  have tables: "\<forall>ev\<in>set (entries (fold (\<lambda>t. fold (check_job rp configInfos) (snd t)) ts st)). P ev"
    if "\<forall>ev\<in>set (entries st). P ev" for rp ts st
    by (rule fold_keeps [where Q = "\<lambda>s. \<forall>ev\<in>set (entries s). P ev"])
      (rule jobs, assumption, rule that)
  have one: "\<forall>ev\<in>set (entries (snd (job_callback rel configInfos jf acc))). P ev"
    if "\<forall>ev\<in>set (entries (snd acc)). P ev" for jf acc
    unfolding job_callback_def Let_def snd_conv
    by (intro jobs tables that)
  show ?thesis
    by (rule fold_keeps [where Q = "\<lambda>s. \<forall>ev\<in>set (entries (snd s)). P ev"])
      (rule one, assumption, rule assms(3))
qed

lemma job_walk_paths:
  "fst (fold (job_callback rel configInfos) files acc) =
     fst acc @ map (\<lambda>file. \<lparr>path = rel (job_Filename (snd file)),
                             configMap = job_ConfigMapName (snd file)\<rparr>) files"
  by (induction files arbitrary: acc) (simp_all add: job_callback_def Let_def)

lemma main_loaded:
  "main M rel maps (configs, None) (files, None) =
     (let loaded = fold (ciop_callback rel) configs ([], Map.empty);
          walked = fold (job_callback rel (snd loaded)) files
                     (fst loaded, \<lparr>foundFailures = False, entries = []\<rparr>);
          st' = check_paths M maps (fst walked) (snd walked)
      in if foundFailures st'
         then (1, entries st' @ [FatalExit
                ''Found configurations that do not belong to the correct auto-updating config''])
         else (0, entries st'))"
  by (simp add: main_def Let_def split: prod.splits)

lemma main_coverage:
  "NoConfigMap q \<in> set (snd (main M rel maps (configs, None) (files, None))) \<longleftrightarrow>
     (q \<in> (\<lambda>info. rel (Filename info)) ` set configs
        \<or> q \<in> (\<lambda>jf. rel (job_Filename (snd jf))) ` set files)
     \<and> (\<forall>r\<in>set maps. \<not> fst (M (fst r) q))"
proof -
  define loaded where "loaded = fold (ciop_callback rel) configs ([], Map.empty)"
  define walked where "walked = fold (job_callback rel (snd loaded)) files
                     (fst loaded, \<lparr>foundFailures = False, entries = []\<rparr>)"
  have clean: "\<forall>ev\<in>set (entries (snd walked)). ev \<noteq> NoConfigMap q"
    unfolding walked_def by (rule job_walk_keeps) simp_all
  have paths: "path ` set (fst walked) =
      (\<lambda>info. rel (Filename info)) ` set configs
      \<union> (\<lambda>jf. rel (job_Filename (snd jf))) ` set files"
    unfolding walked_def loaded_def by (simp add: job_walk_paths ciop_paths image_Un image_image)
  have "NoConfigMap q \<in> set (snd (main M rel maps (configs, None) (files, None))) \<longleftrightarrow>
      NoConfigMap q \<in> set (entries (check_paths M maps (fst walked) (snd walked)))"
    by (simp add: main_loaded Let_def loaded_def walked_def)
  also have "\<dots> \<longleftrightarrow> (\<exists>p\<in>set (fst walked). path p = q \<and> (\<forall>r\<in>set maps. \<not> fst (M (fst r) q)))"
    using clean by (auto simp add: check_paths_coverage)
  also have "\<dots> \<longleftrightarrow> q \<in> path ` set (fst walked) \<and> (\<forall>r\<in>set maps. \<not> fst (M (fst r) q))"
    by auto
  finally show ?thesis by (simp add: paths)
qed

section \<open>The records of checkSpec\<close>

text \<open>
  \<open>checkSpec\<close> appends to the log, in order, what each environment entry of each
  container writes by itself, and returns whether any entry failed. The job walk runs
  it on every job that has a pod specification, and the partition check adds no
  record of these two kinds.
\<close>

lemma check_env_from:
  "check_env rp n ci i e s =
     (fst s \<or> fst (check_env rp n ci i e (False, [])),
      snd s @ snd (check_env rp n ci i e (False, [])))"
  by (cases s) (simp add: check_env_def split: option.splits)

lemma fold_check_env:
  "fold (check_env rp n ci i) es s =
     (fst s \<or> (\<exists>e\<in>set es. fst (check_env rp n ci i e (False, []))),
      snd s @ concat (map (\<lambda>e. snd (check_env rp n ci i e (False, []))) es))"
proof (induction es arbitrary: s)
  case Nil
  show ?case by simp
next
  case (Cons e es)
  show ?case
    by (simp add: Cons.IH) (subst check_env_from, auto)+
qed

lemma fold_check_container:
  "fold (check_container rp n ci) ics s =
     (fst s \<or> (\<exists>ic\<in>set ics. \<exists>e\<in>set (Env (snd ic)). fst (check_env rp n ci (fst ic) e (False, []))),
      snd s @ concat (map (\<lambda>ic. concat (map (\<lambda>e. snd (check_env rp n ci (fst ic) e (False, [])))
                                          (Env (snd ic)))) ics))"
proof (induction ics arbitrary: s)
  case Nil
  show ?case by simp
next
  case (Cons ic ics)
  have step: "check_container rp n ci ic s =
     (fst s \<or> (\<exists>e\<in>set (Env (snd ic)). fst (check_env rp n ci (fst ic) e (False, []))),
      snd s @ concat (map (\<lambda>e. snd (check_env rp n ci (fst ic) e (False, []))) (Env (snd ic))))"
    by (simp add: check_container_def fold_check_env)
  show ?case
    by (simp add: Cons.IH step)
qed

lemma ex_enumerate:
  "(\<exists>ic\<in>set (enumerate 0 xs). P (fst ic) (snd ic)) \<longleftrightarrow> (\<exists>c<length xs. P c (xs ! c))"
proof
  assume "\<exists>ic\<in>set (enumerate 0 xs). P (fst ic) (snd ic)"
  then show "\<exists>c<length xs. P c (xs ! c)"
    by (auto simp add: in_set_enumerate_eq)
next
  assume "\<exists>c<length xs. P c (xs ! c)"
  then obtain c where c: "c < length xs" "P c (xs ! c)" by blast
  then have "(c, xs ! c) \<in> set (enumerate 0 xs)"
    by (simp add: in_set_enumerate_eq)
  with c show "\<exists>ic\<in>set (enumerate 0 xs). P (fst ic) (snd ic)"
    by force
qed

lemma checkSpec_records:
  "checkSpec spec rp n ci lg =
     ((\<exists>ic\<in>set (enumerate 0 (Containers spec)). \<exists>e\<in>set (Env (snd ic)).
          fst (check_env rp n ci (fst ic) e (False, []))),
      lg @ concat (map (\<lambda>ic. concat (map (\<lambda>e. snd (check_env rp n ci (fst ic) e (False, [])))
                                       (Env (snd ic))))
                    (enumerate 0 (Containers spec))))"
  by (simp add: checkSpec_def fold_check_container)

lemma check_env_unknown:
  "UnknownKey f j c k \<in> set (snd (check_env rp n ci i e (False, []))) \<longleftrightarrow>
     f = rp \<and> j = n \<and> c = i \<and> env_Name e = ''CONFIG_SPEC''
     \<and> (\<exists>vf r. ValueFrom e = Some vf \<and> ConfigMapKeyRef vf = Some r \<and> Key r = k)
     \<and> ci k = None"
  by (auto simp add: check_env_def split: option.splits)

lemma check_env_invalid:
  "InvalidShard f j c k got ex \<in> set (snd (check_env rp n ci i e (False, []))) \<longleftrightarrow>
     f = rp \<and> j = n \<and> c = i \<and> env_Name e = ''CONFIG_SPEC''
     \<and> (\<exists>vf r. ValueFrom e = Some vf \<and> ConfigMapKeyRef vf = Some r \<and> Key r = k
           \<and> ref_Name r = got)
     \<and> (\<exists>info. ci k = Some info \<and> ConfigMapName info = ex) \<and> got \<noteq> ex"
  by (auto simp add: check_env_def split: option.splits)

lemma check_env_failed:
  "fst (check_env rp n ci i e (False, [])) \<longleftrightarrow>
     env_Name e = ''CONFIG_SPEC''
     \<and> (\<exists>vf r. ValueFrom e = Some vf \<and> ConfigMapKeyRef vf = Some r
           \<and> (case ci (Key r) of None \<Rightarrow> True
               | Some info \<Rightarrow> ref_Name r \<noteq> ConfigMapName info))"
  by (auto simp add: check_env_def split: option.splits)

lemma checkSpec_unknown:
  "UnknownKey f j c k \<in> set (snd (checkSpec spec rp n ci lg)) \<longleftrightarrow>
     UnknownKey f j c k \<in> set lg
     \<or> (f = rp \<and> j = n \<and> c < length (Containers spec)
        \<and> (\<exists>e\<in>set (Env (Containers spec ! c)). env_Name e = ''CONFIG_SPEC''
              \<and> (\<exists>vf r. ValueFrom e = Some vf \<and> ConfigMapKeyRef vf = Some r \<and> Key r = k))
        \<and> ci k = None)"
proof -
  have "UnknownKey f j c k \<in> set (snd (checkSpec spec rp n ci lg)) \<longleftrightarrow>
      UnknownKey f j c k \<in> set lg
      \<or> (\<exists>ic\<in>set (enumerate 0 (Containers spec)). \<exists>e\<in>set (Env (snd ic)).
            UnknownKey f j c k \<in> set (snd (check_env rp n ci (fst ic) e (False, []))))"
    by (simp add: checkSpec_records)
  then show ?thesis
    unfolding ex_enumerate [where P = "\<lambda>i cont. \<exists>e\<in>set (Env cont).
        UnknownKey f j c k \<in> set (snd (check_env rp n ci i e (False, [])))"]
    by (auto simp add: check_env_unknown)
qed

lemma checkSpec_invalid:
  "InvalidShard f j c k got ex \<in> set (snd (checkSpec spec rp n ci lg)) \<longleftrightarrow>
     InvalidShard f j c k got ex \<in> set lg
     \<or> (f = rp \<and> j = n \<and> c < length (Containers spec)
        \<and> (\<exists>e\<in>set (Env (Containers spec ! c)). env_Name e = ''CONFIG_SPEC''
              \<and> (\<exists>vf r. ValueFrom e = Some vf \<and> ConfigMapKeyRef vf = Some r \<and> Key r = k
                    \<and> ref_Name r = got))
        \<and> (\<exists>info. ci k = Some info \<and> ConfigMapName info = ex) \<and> got \<noteq> ex)"
proof -
  have "InvalidShard f j c k got ex \<in> set (snd (checkSpec spec rp n ci lg)) \<longleftrightarrow>
      InvalidShard f j c k got ex \<in> set lg
      \<or> (\<exists>ic\<in>set (enumerate 0 (Containers spec)). \<exists>e\<in>set (Env (snd ic)).
            InvalidShard f j c k got ex \<in> set (snd (check_env rp n ci (fst ic) e (False, []))))"
    by (simp add: checkSpec_records)
  then show ?thesis
    unfolding ex_enumerate [where P = "\<lambda>i cont. \<exists>e\<in>set (Env cont).
        InvalidShard f j c k got ex \<in> set (snd (check_env rp n ci i e (False, [])))"]
    by (auto simp add: check_env_invalid)
qed

lemma checkSpec_failed:
  "fst (checkSpec spec rp n ci lg) \<longleftrightarrow>
     (\<exists>c<length (Containers spec). \<exists>e\<in>set (Env (Containers spec ! c)).
        env_Name e = ''CONFIG_SPEC''
        \<and> (\<exists>vf r. ValueFrom e = Some vf \<and> ConfigMapKeyRef vf = Some r
              \<and> (case ci (Key r) of None \<Rightarrow> True
                  | Some info \<Rightarrow> ref_Name r \<noteq> ConfigMapName info)))"
  unfolding checkSpec_records fst_conv
    ex_enumerate [where P = "\<lambda>i cont. \<exists>e\<in>set (Env cont). fst (check_env rp n ci i e (False, []))"]
  by (simp add: check_env_failed)

lemma check_job_from:
  "entries (check_job rp ci jb st) = entries st @ entries (check_job rp ci jb start)"
  "foundFailures (check_job rp ci jb st) =
     (foundFailures st \<or> foundFailures (check_job rp ci jb start))"
  by (simp_all add: check_job_def checkSpec_records start_def split: option.splits)

lemma fold_check_job:
  "set (entries (fold (check_job rp ci) js st)) =
     set (entries st) \<union> (\<Union>jb\<in>set js. set (entries (check_job rp ci jb start)))"
proof (induction js arbitrary: st)
  case Nil
  show ?case by simp
next
  case (Cons jb js)
  show ?case
    by (simp add: Cons.IH check_job_from(1) [of rp ci jb st] Un_assoc)
qed

lemma job_callback_jobs:
  "snd (job_callback rel ci jf acc) =
     fold (check_job (rel (job_Filename (snd jf))) ci) (jobs_of (fst jf)) (snd acc)"
proof -
  have tables: "fold f (concat (map snd ts)) st = fold (\<lambda>t. fold f (snd t)) ts st"
    for f :: "job \<Rightarrow> checker \<Rightarrow> checker" and ts :: "(string \<times> job list) list" and st
    by (induction ts arbitrary: st) simp_all
  show ?thesis
    by (simp add: job_callback_def Let_def jobs_of_def tables)
qed

lemma job_walk_entries:
  "set (entries (snd (fold (job_callback rel ci) files acc))) =
     set (entries (snd acc))
     \<union> (\<Union>jf\<in>set files. \<Union>jb\<in>set (jobs_of (fst jf)).
           set (entries (check_job (rel (job_Filename (snd jf))) ci jb start)))"
proof (induction files arbitrary: acc)
  case Nil
  show ?case by simp
next
  case (Cons jf files)
  show ?case
    by (simp add: Cons.IH job_callback_jobs fold_check_job Un_assoc)
qed

lemma main_injection_records:
  assumes "(\<exists>f j c k. ev = UnknownKey f j c k) \<or> (\<exists>f j c k got ex. ev = InvalidShard f j c k got ex)"
  shows "ev \<in> set (snd (main M rel maps (configs, None) (files, None))) \<longleftrightarrow>
     (\<exists>jf\<in>set files. \<exists>jb\<in>set (jobs_of (fst jf)).
        ev \<in> set (entries (check_job (rel (job_Filename (snd jf)))
                (snd (fold (ciop_callback rel) configs ([], Map.empty))) jb start)))"
proof -
  define loaded where "loaded = fold (ciop_callback rel) configs ([], Map.empty)"
  define walked where "walked = fold (job_callback rel (snd loaded)) files
                     (fst loaded, \<lparr>foundFailures = False, entries = []\<rparr>)"
  have other: "\<And>f g a b. ev \<noteq> MultipleConfigMaps f g a b"
    using assms by auto
  have step: "ev \<notin> set (entries (rule_step M p r fresh))" for p r
    using assms by (auto simp add: fresh_entries split: option.splits)
  have "ev \<in> set (snd (main M rel maps (configs, None) (files, None))) \<longleftrightarrow>
      ev \<in> set (entries (check_paths M maps (fst walked) (snd walked)))"
    using assms by (auto simp add: main_loaded Let_def loaded_def walked_def)
  also have "\<dots> \<longleftrightarrow> ev \<in> set (entries (snd walked))"
    using assms by (subst check_paths_entries_other [OF other]) (auto simp add: step)
  also have "\<dots> \<longleftrightarrow> (\<exists>jf\<in>set files. \<exists>jb\<in>set (jobs_of (fst jf)).
        ev \<in> set (entries (check_job (rel (job_Filename (snd jf))) (snd loaded) jb start)))"
    unfolding walked_def by (simp add: job_walk_entries)
  finally show ?thesis by (simp add: loaded_def)
qed

lemma check_job_records:
  "entries (check_job rp ci jb start) =
     (case Spec jb of None \<Rightarrow> [] | Some spec \<Rightarrow> snd (checkSpec spec rp (job_Name jb) ci []))"
  by (simp add: check_job_def start_def split: option.splits prod.splits)

lemma check_job_unknown:
  "UnknownKey f j c k \<in> set (entries (check_job rp ci jb start)) \<longleftrightarrow>
     (\<exists>spec. Spec jb = Some spec
        \<and> f = rp \<and> j = job_Name jb
        \<and> c < length (Containers spec)
        \<and> (\<exists>e\<in>set (Env (Containers spec ! c)). env_Name e = ''CONFIG_SPEC''
              \<and> (\<exists>vf r. ValueFrom e = Some vf \<and> ConfigMapKeyRef vf = Some r \<and> Key r = k))
        \<and> ci k = None)"
  by (cases "Spec jb") (simp_all add: check_job_records checkSpec_unknown)

lemma check_job_invalid:
  "InvalidShard f j c k got ex \<in> set (entries (check_job rp ci jb start)) \<longleftrightarrow>
     (\<exists>spec. Spec jb = Some spec
        \<and> f = rp \<and> j = job_Name jb
        \<and> c < length (Containers spec)
        \<and> (\<exists>e\<in>set (Env (Containers spec ! c)). env_Name e = ''CONFIG_SPEC''
              \<and> (\<exists>vf r. ValueFrom e = Some vf \<and> ConfigMapKeyRef vf = Some r \<and> Key r = k
                    \<and> ref_Name r = got))
        \<and> (\<exists>info. ci k = Some info \<and> ConfigMapName info = ex)
        \<and> got \<noteq> ex)"
  by (cases "Spec jb") (simp_all add: check_job_records checkSpec_invalid)

lemma main_unknown:
  "UnknownKey f j c k \<in> set (snd (main M rel maps (configs, None) (files, None))) \<longleftrightarrow>
     (\<exists>jf\<in>set files. \<exists>jb\<in>set (jobs_of (fst jf)). \<exists>spec. Spec jb = Some spec
        \<and> f = rel (job_Filename (snd jf)) \<and> j = job_Name jb
        \<and> c < length (Containers spec)
        \<and> (\<exists>e\<in>set (Env (Containers spec ! c)). env_Name e = ''CONFIG_SPEC''
              \<and> (\<exists>vf r. ValueFrom e = Some vf \<and> ConfigMapKeyRef vf = Some r \<and> Key r = k))
        \<and> snd (fold (ciop_callback rel) configs ([], Map.empty)) k = None)"
proof -
  have "UnknownKey f j c k \<in> set (snd (main M rel maps (configs, None) (files, None))) \<longleftrightarrow>
     (\<exists>jf\<in>set files. \<exists>jb\<in>set (jobs_of (fst jf)).
        UnknownKey f j c k \<in> set (entries (check_job (rel (job_Filename (snd jf)))
                (snd (fold (ciop_callback rel) configs ([], Map.empty))) jb start)))"
    by (rule main_injection_records) blast
  then show ?thesis by (simp only: check_job_unknown)
qed

lemma main_invalid:
  "InvalidShard f j c k got ex \<in> set (snd (main M rel maps (configs, None) (files, None))) \<longleftrightarrow>
     (\<exists>jf\<in>set files. \<exists>jb\<in>set (jobs_of (fst jf)). \<exists>spec. Spec jb = Some spec
        \<and> f = rel (job_Filename (snd jf)) \<and> j = job_Name jb
        \<and> c < length (Containers spec)
        \<and> (\<exists>e\<in>set (Env (Containers spec ! c)). env_Name e = ''CONFIG_SPEC''
              \<and> (\<exists>vf r. ValueFrom e = Some vf \<and> ConfigMapKeyRef vf = Some r \<and> Key r = k
                    \<and> ref_Name r = got))
        \<and> (\<exists>info. snd (fold (ciop_callback rel) configs ([], Map.empty)) k = Some info
              \<and> ConfigMapName info = ex)
        \<and> got \<noteq> ex)"
proof -
  have "InvalidShard f j c k got ex
        \<in> set (snd (main M rel maps (configs, None) (files, None))) \<longleftrightarrow>
     (\<exists>jf\<in>set files. \<exists>jb\<in>set (jobs_of (fst jf)).
        InvalidShard f j c k got ex \<in> set (entries (check_job (rel (job_Filename (snd jf)))
                (snd (fold (ciop_callback rel) configs ([], Map.empty))) jb start)))"
    by (rule main_injection_records) blast
  then show ?thesis by (simp only: check_job_invalid)
qed

section \<open>Errors of the matcher\<close>






lemmas run_defs = demo_Match_def BundleA_def BundleB_def start_def DefaultClusterAlias_def
  foo_yaml_def

lemmas main_defs = main_def ciop_callback_def job_callback_def check_job_def checkSpec_def
  check_container_def check_env_def check_paths_def check_path_def rule_step_def Let_def
  part_fields

section \<open>Coverage\<close>

text \<open>
  C1. A coverage record for a path is written by the partition check exactly when the
  path is one of the checked paths and no rule of the rule set matches it; a path that
  some rule matches gets none, and a path that no rule matches sets the failure flag.
  In a run of \<open>main\<close> whose two walks succeed, the checked paths are the relative paths
  of the configuration files and of the job configuration files that were visited.
\<close>

theorem coverage_failure_recorded:
  "(NoConfigMap q \<in> set (entries (check_paths M maps pathsToCheck st)) \<longleftrightarrow>
      NoConfigMap q \<in> set (entries st)
      \<or> (\<exists>p\<in>set pathsToCheck. path p = q \<and> (\<forall>r\<in>set maps. \<not> fst (M (fst r) q))))
   \<and> ((\<exists>p\<in>set pathsToCheck. \<forall>r\<in>set maps. \<not> fst (M (fst r) (path p)))
        \<longrightarrow> foundFailures (check_paths M maps pathsToCheck st))
   \<and> (NoConfigMap q \<in> set (snd (main M rel maps (configs, None) (files, None))) \<longleftrightarrow>
        (q \<in> (\<lambda>info. rel (Filename info)) ` set configs
           \<or> q \<in> (\<lambda>jf. rel (job_Filename (snd jf))) ` set files)
        \<and> (\<forall>r\<in>set maps. \<not> fst (M (fst r) q)))"
proof (intro conjI)
  show "NoConfigMap q \<in> set (entries (check_paths M maps pathsToCheck st)) \<longleftrightarrow>
      NoConfigMap q \<in> set (entries st)
      \<or> (\<exists>p\<in>set pathsToCheck. path p = q \<and> (\<forall>r\<in>set maps. \<not> fst (M (fst r) q)))"
    by (rule check_paths_coverage)
  show "(\<exists>p\<in>set pathsToCheck. \<forall>r\<in>set maps. \<not> fst (M (fst r) (path p)))
        \<longrightarrow> foundFailures (check_paths M maps pathsToCheck st)"
    by (subst check_paths_foundFailures) auto
  show "NoConfigMap q \<in> set (snd (main M rel maps (configs, None) (files, None))) \<longleftrightarrow>
        (q \<in> (\<lambda>info. rel (Filename info)) ` set configs
           \<or> q \<in> (\<lambda>jf. rel (job_Filename (snd jf))) ` set files)
        \<and> (\<forall>r\<in>set maps. \<not> fst (M (fst r) q))"
    by (rule main_coverage)
qed

theorem coverage_failure_recorded_witness:
  "NoConfigMap ''other/foo.yaml'' \<in> set (entries (check_paths demo_Match
      [(''dir/*.yaml'', BundleA)]
      [foo_yaml, \<lparr>path = ''other/foo.yaml'', configMap = ''BundleA''\<rparr>] start))
   \<and> NoConfigMap ''dir/foo.yaml'' \<notin> set (entries (check_paths demo_Match
      [(''dir/*.yaml'', BundleA)]
      [foo_yaml, \<lparr>path = ''other/foo.yaml'', configMap = ''BundleA''\<rparr>] start))
   \<and> foundFailures (check_paths demo_Match
      [(''dir/*.yaml'', BundleA)]
      [foo_yaml, \<lparr>path = ''other/foo.yaml'', configMap = ''BundleA''\<rparr>] start)
   \<and> NoConfigMap ''ci-operator/config/org/repo/k1''
        \<in> set (snd (main demo_Match id [(''dir/*.yaml'', BundleA)] ([info_k1], None) ([], None)))"
  using coverage_failure_recorded [where q = "''other/foo.yaml''" and M = demo_Match
      and maps = "[(''dir/*.yaml'', BundleA)]"
      and pathsToCheck = "[foo_yaml, \<lparr>path = ''other/foo.yaml'', configMap = ''BundleA''\<rparr>]"
      and st = start]
    coverage_failure_recorded [where q = "''dir/foo.yaml''" and M = demo_Match
      and maps = "[(''dir/*.yaml'', BundleA)]"
      and pathsToCheck = "[foo_yaml, \<lparr>path = ''other/foo.yaml'', configMap = ''BundleA''\<rparr>]"
      and st = start]
    coverage_failure_recorded [where q = "''ci-operator/config/org/repo/k1''" and M = demo_Match
      and maps = "[(''dir/*.yaml'', BundleA)]" and rel = id
      and configs = "[info_k1]" and files = "[]"]
  by (simp add: run_defs info_k1_def)

section \<open>Uniqueness\<close>

text \<open>
  C2. The record written when a second rule matches a path carries \<open>matchedMap\<close> and
  the expected bundle of the path; line 154 stores the expected bundle of the path in
  \<open>matchedMap\<close>, not the name of the rule that matched. With the rules
  \<open>dir/*.yaml\<close> of \<open>BundleA\<close> and \<open>dir/foo.*\<close> of \<open>BundleB\<close> and the file
  \<open>dir/foo.yaml\<close> expected in \<open>BundleA\<close>, the record reads \<open>BundleA, BundleA\<close> in
  either order of the rules; \<open>BundleB\<close> appears in the mismatch record only.
\<close>

theorem uniqueness_record_repeats_expected_bundle:
  "entries (check_paths demo_Match
      [(''dir/*.yaml'', BundleA), (''dir/foo.*'', BundleB)] [foo_yaml] start)
    = [MultipleConfigMaps ''dir/foo.yaml'' ''dir/foo.*'' ''BundleA'' ''BundleA'',
       UnexpectedConfigMap ''dir/foo.yaml'' ''dir/foo.*'' ''BundleB'' ''BundleA'']
   \<and> entries (check_paths demo_Match
      [(''dir/foo.*'', BundleB), (''dir/*.yaml'', BundleA)] [foo_yaml] start)
    = [UnexpectedConfigMap ''dir/foo.yaml'' ''dir/foo.*'' ''BundleB'' ''BundleA'',
       MultipleConfigMaps ''dir/foo.yaml'' ''dir/*.yaml'' ''BundleA'' ''BundleA'']"
  by (simp add: check_paths_def check_path_def rule_step_def Let_def part_fields run_defs
      foo_yaml_def)

section \<open>Correctness of the matched bundle\<close>

text \<open>
  C3. A mismatch record with rule bundle \<open>n\<close> and expected bundle \<open>c\<close> for path \<open>q\<close> and
  pattern \<open>g\<close> is written exactly when \<open>q\<close> is a checked path with expected bundle \<open>c\<close>,
  the rule with pattern \<open>g\<close> has bundle \<open>n\<close> and matches \<open>q\<close>, and \<open>n\<close> differs from \<open>c\<close>;
  the record carries both names. A matching rule whose bundle is the expected one
  writes no such record. Every mismatch sets the failure flag.
\<close>

theorem mismatch_failure_recorded:
  "(UnexpectedConfigMap q g n c \<in> set (entries (check_paths M maps pathsToCheck st)) \<longleftrightarrow>
      UnexpectedConfigMap q g n c \<in> set (entries st)
      \<or> (\<exists>p\<in>set pathsToCheck. \<exists>r\<in>set maps.
            path p = q \<and> configMap p = c \<and> fst r = g \<and> Name (snd r) = n
            \<and> fst (M g q) \<and> n \<noteq> c))
   \<and> ((\<exists>p\<in>set pathsToCheck. \<exists>r\<in>set maps.
          fst (M (fst r) (path p)) \<and> Name (snd r) \<noteq> configMap p)
        \<longrightarrow> foundFailures (check_paths M maps pathsToCheck st))"
proof
  have "UnexpectedConfigMap q g n c \<in> set (entries (rule_step M p r fresh)) \<longleftrightarrow>
      path p = q \<and> configMap p = c \<and> fst r = g \<and> Name (snd r) = n
            \<and> fst (M g q) \<and> n \<noteq> c" for p r
    by (auto simp add: fresh_entries split: option.splits)
  then show "UnexpectedConfigMap q g n c \<in> set (entries (check_paths M maps pathsToCheck st)) \<longleftrightarrow>
      UnexpectedConfigMap q g n c \<in> set (entries st)
      \<or> (\<exists>p\<in>set pathsToCheck. \<exists>r\<in>set maps.
            path p = q \<and> configMap p = c \<and> fst r = g \<and> Name (snd r) = n
            \<and> fst (M g q) \<and> n \<noteq> c)"
    by (subst check_paths_entries_other) auto
  show "(\<exists>p\<in>set pathsToCheck. \<exists>r\<in>set maps.
          fst (M (fst r) (path p)) \<and> Name (snd r) \<noteq> configMap p)
        \<longrightarrow> foundFailures (check_paths M maps pathsToCheck st)"
    by (subst check_paths_foundFailures) (auto simp add: fresh_foundFailures)
qed


theorem mismatch_failure_recorded_witness:
  "UnexpectedConfigMap ''dir/foo.yaml'' ''dir/foo.*'' ''BundleB'' ''BundleA''
     \<in> set (entries (check_paths demo_Match
          [(''dir/*.yaml'', BundleA), (''dir/foo.*'', BundleB)]
          [\<lparr>path = ''dir/foo.yaml'', configMap = ''BundleA''\<rparr>] start))
   \<and> UnexpectedConfigMap ''dir/foo.yaml'' ''dir/*.yaml'' ''BundleA'' ''BundleA''
     \<notin> set (entries (check_paths demo_Match
          [(''dir/*.yaml'', BundleA), (''dir/foo.*'', BundleB)]
          [\<lparr>path = ''dir/foo.yaml'', configMap = ''BundleA''\<rparr>] start))
   \<and> foundFailures (check_paths demo_Match
          [(''dir/*.yaml'', BundleA), (''dir/foo.*'', BundleB)]
          [\<lparr>path = ''dir/foo.yaml'', configMap = ''BundleA''\<rparr>] start)"
  using mismatch_failure_recorded [of "''dir/foo.yaml''" "''dir/foo.*''" "''BundleB''" "''BundleA''"
      demo_Match "[(''dir/*.yaml'', BundleA), (''dir/foo.*'', BundleB)]"
      "[\<lparr>path = ''dir/foo.yaml'', configMap = ''BundleA''\<rparr>]" start]
    mismatch_failure_recorded [of "''dir/foo.yaml''" "''dir/*.yaml''" "''BundleA''" "''BundleA''"
      demo_Match "[(''dir/*.yaml'', BundleA), (''dir/foo.*'', BundleB)]"
      "[\<lparr>path = ''dir/foo.yaml'', configMap = ''BundleA''\<rparr>]" start]
  by (simp add: run_defs)

section \<open>Injected configuration keys\<close>

text \<open>
  C4. For an environment entry that is an injection reference with key \<open>Key r\<close> and
  bundle \<open>ref_Name r\<close>: when the key is not in the index, exactly the unknown-key record
  is written; when it is and the indexed file's bundle differs, exactly the wrong-shard
  record with both names is written; when the names agree, nothing is written and the
  flag is left as it was. \<open>checkSpec\<close> does this for every environment entry of every
  container, in order, and returns whether any reference failed: an unknown-key record
  for key \<open>k\<close> and container \<open>c\<close> is written exactly when container \<open>c\<close> has a reference
  with key \<open>k\<close> and \<open>k\<close> is not in the index, and a wrong-shard record with names \<open>got\<close>
  and \<open>ex\<close> exactly when it has a reference with key \<open>k\<close> and bundle \<open>got\<close>, the index
  has a file of bundle \<open>ex\<close> for \<open>k\<close>, and the two differ. In a run of \<open>main\<close> whose walks
  succeed, the same holds for every job of every visited job file that has a pod
  specification, against the index built by the configuration walk.
\<close>

theorem injection_reference_checked:
  "(env_Name env = ''CONFIG_SPEC'' \<and> ValueFrom env = Some vf \<and> ConfigMapKeyRef vf = Some r \<longrightarrow>
      check_env relPath name configInfos i env (found, lg) =
        (case configInfos (Key r) of
           None \<Rightarrow> (True, lg @ [UnknownKey relPath name i (Key r)])
         | Some info \<Rightarrow>
             if ref_Name r \<noteq> ConfigMapName info
             then (True, lg @ [InvalidShard relPath name i (Key r) (ref_Name r)
                                 (ConfigMapName info)])
             else (found, lg)))
   \<and> checkSpec spec relPath name configInfos lg =
       ((\<exists>ic\<in>set (enumerate 0 (Containers spec)). \<exists>e\<in>set (Env (snd ic)).
            fst (check_env relPath name configInfos (fst ic) e (False, []))),
        lg @ concat (map (\<lambda>ic. concat (map (\<lambda>e. snd (check_env relPath name configInfos
                                                        (fst ic) e (False, [])))
                                         (Env (snd ic))))
                      (enumerate 0 (Containers spec))))
   \<and> (fst (checkSpec spec relPath name configInfos lg) \<longleftrightarrow>
        (\<exists>c<length (Containers spec). \<exists>e\<in>set (Env (Containers spec ! c)).
           env_Name e = ''CONFIG_SPEC''
           \<and> (\<exists>vf r. ValueFrom e = Some vf \<and> ConfigMapKeyRef vf = Some r
                 \<and> (case configInfos (Key r) of None \<Rightarrow> True
                     | Some info \<Rightarrow> ref_Name r \<noteq> ConfigMapName info))))
   \<and> (UnknownKey f j c k \<in> set (snd (checkSpec spec relPath name configInfos lg)) \<longleftrightarrow>
        UnknownKey f j c k \<in> set lg
        \<or> (f = relPath \<and> j = name \<and> c < length (Containers spec)
           \<and> (\<exists>e\<in>set (Env (Containers spec ! c)). env_Name e = ''CONFIG_SPEC''
                 \<and> (\<exists>vf r. ValueFrom e = Some vf \<and> ConfigMapKeyRef vf = Some r \<and> Key r = k))
           \<and> configInfos k = None))
   \<and> (InvalidShard f j c k got ex \<in> set (snd (checkSpec spec relPath name configInfos lg)) \<longleftrightarrow>
        InvalidShard f j c k got ex \<in> set lg
        \<or> (f = relPath \<and> j = name \<and> c < length (Containers spec)
           \<and> (\<exists>e\<in>set (Env (Containers spec ! c)). env_Name e = ''CONFIG_SPEC''
                 \<and> (\<exists>vf r. ValueFrom e = Some vf \<and> ConfigMapKeyRef vf = Some r \<and> Key r = k
                       \<and> ref_Name r = got))
           \<and> (\<exists>info. configInfos k = Some info \<and> ConfigMapName info = ex) \<and> got \<noteq> ex))
   \<and> (UnknownKey f j c k \<in> set (snd (main M rel maps (configs, None) (files, None))) \<longleftrightarrow>
        (\<exists>jf\<in>set files. \<exists>jb\<in>set (jobs_of (fst jf)). \<exists>spec. Spec jb = Some spec
           \<and> f = rel (job_Filename (snd jf)) \<and> j = job_Name jb
           \<and> c < length (Containers spec)
           \<and> (\<exists>e\<in>set (Env (Containers spec ! c)). env_Name e = ''CONFIG_SPEC''
                 \<and> (\<exists>vf r. ValueFrom e = Some vf \<and> ConfigMapKeyRef vf = Some r \<and> Key r = k))
           \<and> snd (fold (ciop_callback rel) configs ([], Map.empty)) k = None))
   \<and> (InvalidShard f j c k got ex
         \<in> set (snd (main M rel maps (configs, None) (files, None))) \<longleftrightarrow>
        (\<exists>jf\<in>set files. \<exists>jb\<in>set (jobs_of (fst jf)). \<exists>spec. Spec jb = Some spec
           \<and> f = rel (job_Filename (snd jf)) \<and> j = job_Name jb
           \<and> c < length (Containers spec)
           \<and> (\<exists>e\<in>set (Env (Containers spec ! c)). env_Name e = ''CONFIG_SPEC''
                 \<and> (\<exists>vf r. ValueFrom e = Some vf \<and> ConfigMapKeyRef vf = Some r \<and> Key r = k
                       \<and> ref_Name r = got))
           \<and> (\<exists>info. snd (fold (ciop_callback rel) configs ([], Map.empty)) k = Some info
                 \<and> ConfigMapName info = ex)
           \<and> got \<noteq> ex))"
proof (intro conjI)
  show "env_Name env = ''CONFIG_SPEC'' \<and> ValueFrom env = Some vf \<and> ConfigMapKeyRef vf = Some r \<longrightarrow>
      check_env relPath name configInfos i env (found, lg) =
        (case configInfos (Key r) of
           None \<Rightarrow> (True, lg @ [UnknownKey relPath name i (Key r)])
         | Some info \<Rightarrow>
             if ref_Name r \<noteq> ConfigMapName info
             then (True, lg @ [InvalidShard relPath name i (Key r) (ref_Name r)
                                 (ConfigMapName info)])
             else (found, lg))"
    by (simp add: check_env_def split: option.splits)
qed (rule checkSpec_records checkSpec_failed checkSpec_unknown checkSpec_invalid
      main_unknown main_invalid)+

theorem injection_reference_checked_witness:
  "check_env ''ci-operator/jobs/org/repo/j.yaml'' ''job'' [''k1'' \<mapsto> info_k1] 0 env_k1 (False, [])
       = (True, [InvalidShard ''ci-operator/jobs/org/repo/j.yaml'' ''job'' 0 ''k1''
                   ''BundleX'' ''BundleY''])
   \<and> check_env ''ci-operator/jobs/org/repo/j.yaml'' ''job'' Map.empty 0 env_k1 (False, [])
       = (True, [UnknownKey ''ci-operator/jobs/org/repo/j.yaml'' ''job'' 0 ''k1''])
   \<and> checkSpec \<lparr>InitContainers = [], Containers = [\<lparr>Env = []\<rparr>, \<lparr>Env = [env_k1]\<rparr>]\<rparr>
        ''ci-operator/jobs/org/repo/j.yaml'' ''job'' [''k1'' \<mapsto> info_k1] []
       = (True, [InvalidShard ''ci-operator/jobs/org/repo/j.yaml'' ''job'' 1 ''k1''
                   ''BundleX'' ''BundleY''])
   \<and> UnknownKey ''ci-operator/jobs/org/repo/j.yaml'' ''job'' 1 ''k1''
        \<in> set (snd (checkSpec \<lparr>InitContainers = [], Containers = [\<lparr>Env = []\<rparr>, \<lparr>Env = [env_k1]\<rparr>]\<rparr>
             ''ci-operator/jobs/org/repo/j.yaml'' ''job'' Map.empty []))
   \<and> InvalidShard ''ci-operator/jobs/org/repo/j.yaml'' ''job'' 0 ''k1'' ''BundleX'' ''BundleY''
        \<in> set (snd (main demo_Match id shards ([a_k1, info_k1], None) ([job_k1], None)))"
proof -
  note spec = injection_reference_checked [THEN conjunct2, THEN conjunct1]
  note unknown = injection_reference_checked
    [THEN conjunct2, THEN conjunct2, THEN conjunct2, THEN conjunct1]
  note run = injection_reference_checked
    [THEN conjunct2, THEN conjunct2, THEN conjunct2, THEN conjunct2, THEN conjunct2,
     THEN conjunct2]
  have a: "check_env ''ci-operator/jobs/org/repo/j.yaml'' ''job'' [''k1'' \<mapsto> info_k1] 0 env_k1
        (False, [])
       = (True, [InvalidShard ''ci-operator/jobs/org/repo/j.yaml'' ''job'' 0 ''k1''
                   ''BundleX'' ''BundleY''])"
    using injection_reference_checked [where env = env_k1
        and vf = "\<lparr>ConfigMapKeyRef = Some \<lparr>ref_Name = ''BundleX'', Key = ''k1''\<rparr>\<rparr>"
        and r = "\<lparr>ref_Name = ''BundleX'', Key = ''k1''\<rparr>"
        and relPath = "''ci-operator/jobs/org/repo/j.yaml''" and name = "''job''"
        and configInfos = "[''k1'' \<mapsto> info_k1]" and i = 0 and found = False and lg = "[]",
        THEN conjunct1]
    by (simp add: env_k1_def info_k1_def)
  have b: "check_env ''ci-operator/jobs/org/repo/j.yaml'' ''job'' Map.empty 0 env_k1 (False, [])
       = (True, [UnknownKey ''ci-operator/jobs/org/repo/j.yaml'' ''job'' 0 ''k1''])"
    using injection_reference_checked [where env = env_k1
        and vf = "\<lparr>ConfigMapKeyRef = Some \<lparr>ref_Name = ''BundleX'', Key = ''k1''\<rparr>\<rparr>"
        and r = "\<lparr>ref_Name = ''BundleX'', Key = ''k1''\<rparr>"
        and relPath = "''ci-operator/jobs/org/repo/j.yaml''" and name = "''job''"
        and configInfos = Map.empty and i = 0 and found = False and lg = "[]",
        THEN conjunct1]
    by (simp add: env_k1_def)
  have c: "checkSpec \<lparr>InitContainers = [], Containers = [\<lparr>Env = []\<rparr>, \<lparr>Env = [env_k1]\<rparr>]\<rparr>
        ''ci-operator/jobs/org/repo/j.yaml'' ''job'' [''k1'' \<mapsto> info_k1] []
       = (True, [InvalidShard ''ci-operator/jobs/org/repo/j.yaml'' ''job'' 1 ''k1''
                   ''BundleX'' ''BundleY''])"
    by (subst spec) (simp add: check_env_def env_k1_def info_k1_def)
  have d: "UnknownKey ''ci-operator/jobs/org/repo/j.yaml'' ''job'' 1 ''k1''
        \<in> set (snd (checkSpec \<lparr>InitContainers = [], Containers = [\<lparr>Env = []\<rparr>, \<lparr>Env = [env_k1]\<rparr>]\<rparr>
             ''ci-operator/jobs/org/repo/j.yaml'' ''job'' Map.empty []))"
    by (subst unknown) (simp add: env_k1_def)
  have e: "InvalidShard ''ci-operator/jobs/org/repo/j.yaml'' ''job'' 0 ''k1'' ''BundleX'' ''BundleY''
        \<in> set (snd (main demo_Match id shards ([a_k1, info_k1], None) ([job_k1], None)))"
    by (subst run)
      (simp add: job_k1_def jobs_of_def env_k1_def ciop_callback_def a_k1_def info_k1_def)
  from a b c d e show ?thesis by blast
qed

section \<open>The default cluster alias\<close>

text \<open>
  C5. The alias check is made inside the loop over the checked paths. When
  at least one path is checked, a rule whose \<open>Clusters\<close> has the default alias sets the
  failure flag and writes one record for every checked path, whether or not its
  pattern matches any of them; the record is written for no other reason.
\<close>

theorem default_alias_rejected:
  "(ClusterAliasNotAllowed q \<in> set (entries (check_paths M maps pathsToCheck st)) \<longleftrightarrow>
      ClusterAliasNotAllowed q \<in> set (entries st)
      \<or> ((\<exists>p\<in>set pathsToCheck. path p = q)
          \<and> (\<exists>r\<in>set maps. Clusters (snd r) DefaultClusterAlias \<noteq> None)))
   \<and> (pathsToCheck \<noteq> [] \<and> (\<exists>r\<in>set maps. Clusters (snd r) DefaultClusterAlias \<noteq> None)
        \<longrightarrow> foundFailures (check_paths M maps pathsToCheck st))"
proof
  have "ClusterAliasNotAllowed q \<in> set (entries (rule_step M p r fresh)) \<longleftrightarrow>
      path p = q \<and> Clusters (snd r) DefaultClusterAlias \<noteq> None" for p r
    by (auto simp add: fresh_entries split: option.splits)
  then show "ClusterAliasNotAllowed q \<in> set (entries (check_paths M maps pathsToCheck st)) \<longleftrightarrow>
      ClusterAliasNotAllowed q \<in> set (entries st)
      \<or> ((\<exists>p\<in>set pathsToCheck. path p = q)
          \<and> (\<exists>r\<in>set maps. Clusters (snd r) DefaultClusterAlias \<noteq> None))"
    by (subst check_paths_entries_other) auto
  show "pathsToCheck \<noteq> [] \<and> (\<exists>r\<in>set maps. Clusters (snd r) DefaultClusterAlias \<noteq> None)
        \<longrightarrow> foundFailures (check_paths M maps pathsToCheck st)"
  proof (intro impI, elim conjE bexE)
    fix r
    assume "pathsToCheck \<noteq> []" and r: "r \<in> set maps"
      and bad: "Clusters (snd r) DefaultClusterAlias \<noteq> None"
    then obtain p where p: "p \<in> set pathsToCheck"
      by (cases pathsToCheck) auto
    have "foundFailures (rule_step M p r fresh)"
      using bad by (simp add: fresh_foundFailures)
    with p r show "foundFailures (check_paths M maps pathsToCheck st)"
      by (subst check_paths_foundFailures) blast
  qed
qed

theorem default_alias_rejected_witness:
  "ClusterAliasNotAllowed ''dir/foo.yaml'' \<in> set (entries (check_paths demo_Match
      [(''other/*.yaml'', BundleDefault)] [foo_yaml] start))
   \<and> foundFailures (check_paths demo_Match [(''other/*.yaml'', BundleDefault)] [foo_yaml] start)"
  using default_alias_rejected [of "''dir/foo.yaml''" demo_Match
      "[(''other/*.yaml'', BundleDefault)]" "[foo_yaml]" start]
  by (simp add: run_defs BundleDefault_def foo_yaml_def)

text \<open>
  With no configuration file and no job configuration file the loop body never runs:
  the rule set below has the default alias and \<open>main\<close> exits with code 0 and an empty
  log.
\<close>

theorem default_alias_unseen_without_paths:
  "Clusters BundleDefault DefaultClusterAlias = Some [''ci'']
   \<and> main demo_Match id [(''dir/*.yaml'', BundleDefault)] ([], None) ([], None) = (0, [])"
  by (simp add: main_def check_paths_def BundleDefault_def DefaultClusterAlias_def)

section \<open>Compression of job configurations\<close>

text \<open>
  C6. The gzip check is made inside the loop over the checked paths. When at
  least one path is checked, a rule whose pattern matches \<open>ci-operator/jobs\<close> without
  error and whose \<open>GZIP\<close> is nil or false sets the failure flag and writes one record
  for every checked path; a rule whose flag is true writes none.
\<close>

theorem gzip_required_for_jobs:
  "(GzipNotEnabled q g \<in> set (entries (check_paths M maps pathsToCheck st)) \<longleftrightarrow>
      GzipNotEnabled q g \<in> set (entries st)
      \<or> ((\<exists>p\<in>set pathsToCheck. path p = q)
          \<and> (\<exists>r\<in>set maps. fst r = g \<and> M g ''ci-operator/jobs'' = (True, None)
                \<and> GZIP (snd r) \<noteq> Some True)))
   \<and> (pathsToCheck \<noteq> []
        \<and> (\<exists>r\<in>set maps. M (fst r) ''ci-operator/jobs'' = (True, None)
              \<and> GZIP (snd r) \<noteq> Some True)
        \<longrightarrow> foundFailures (check_paths M maps pathsToCheck st))"
proof
  have "GzipNotEnabled q g \<in> set (entries (rule_step M p r fresh)) \<longleftrightarrow>
      path p = q \<and> fst r = g \<and> M g ''ci-operator/jobs'' = (True, None)
        \<and> GZIP (snd r) \<noteq> Some True" for p r
    by (cases "M (fst r) ''ci-operator/jobs''") (auto simp add: fresh_entries split: option.splits)
  then show "GzipNotEnabled q g \<in> set (entries (check_paths M maps pathsToCheck st)) \<longleftrightarrow>
      GzipNotEnabled q g \<in> set (entries st)
      \<or> ((\<exists>p\<in>set pathsToCheck. path p = q)
          \<and> (\<exists>r\<in>set maps. fst r = g \<and> M g ''ci-operator/jobs'' = (True, None)
                \<and> GZIP (snd r) \<noteq> Some True))"
    by (subst check_paths_entries_other) auto
  show "pathsToCheck \<noteq> []
        \<and> (\<exists>r\<in>set maps. M (fst r) ''ci-operator/jobs'' = (True, None)
              \<and> GZIP (snd r) \<noteq> Some True)
        \<longrightarrow> foundFailures (check_paths M maps pathsToCheck st)"
  proof (intro impI, elim conjE bexE)
    fix r
    assume "pathsToCheck \<noteq> []" and r: "r \<in> set maps"
      and bad: "M (fst r) ''ci-operator/jobs'' = (True, None)" "GZIP (snd r) \<noteq> Some True"
    then obtain p where p: "p \<in> set pathsToCheck"
      by (cases pathsToCheck) auto
    have "foundFailures (rule_step M p r fresh)"
      using bad by (simp add: fresh_foundFailures)
    with p r show "foundFailures (check_paths M maps pathsToCheck st)"
      by (subst check_paths_foundFailures) blast
  qed
qed

theorem gzip_required_for_jobs_witness:
  "GzipNotEnabled ''dir/foo.yaml'' ''ci-operator/*'' \<in> set (entries (check_paths demo_Match
      [(''ci-operator/*'', BundleJobs), (''dir/*.yaml'', BundleA)] [foo_yaml] start))
   \<and> GzipNotEnabled ''dir/foo.yaml'' ''ci-operator/*'' \<notin> set (entries (check_paths demo_Match
      [(''ci-operator/*'', BundleJobs\<lparr>GZIP := Some True\<rparr>), (''dir/*.yaml'', BundleA)] [foo_yaml] start))
   \<and> foundFailures (check_paths demo_Match
      [(''ci-operator/*'', BundleJobs), (''dir/*.yaml'', BundleA)] [foo_yaml] start)"
  using gzip_required_for_jobs [of "''dir/foo.yaml''" "''ci-operator/*''" demo_Match
      "[(''ci-operator/*'', BundleJobs), (''dir/*.yaml'', BundleA)]" "[foo_yaml]" start]
    gzip_required_for_jobs [of "''dir/foo.yaml''" "''ci-operator/*''" demo_Match
      "[(''ci-operator/*'', BundleJobs\<lparr>GZIP := Some True\<rparr>), (''dir/*.yaml'', BundleA)]" "[foo_yaml]" start]
  by (simp add: run_defs BundleJobs_def foo_yaml_def)

text \<open>
  With no file to check, a rule that matches the job configuration root and has no
  gzip flag goes unreported: \<open>main\<close> exits with code 0 and an empty log.
\<close>

theorem gzip_unseen_without_paths:
  "demo_Match ''ci-operator/*'' ''ci-operator/jobs'' = (True, None)
   \<and> GZIP BundleJobs = None
   \<and> main demo_Match id [(''ci-operator/*'', BundleJobs)] ([], None) ([], None) = (0, [])"
  by (simp add: main_def check_paths_def BundleJobs_def demo_Match_def)

section \<open>Errors of the glob match\<close>



section \<open>The order of the rules\<close>

text \<open>
  C8. The check is a function of its inputs and of the order in which the
  rule map is visited. For two orders of the same rules the failure flag is the same,
  every record other than a uniqueness record is written under one order exactly when
  it is under the other, and a uniqueness record for a path and a pair of names is
  written under one order exactly when one is under the other; the glob carried by
  a uniqueness record is that of the matching rule visited later, so it depends on
  the order.
\<close>

theorem rule_order_changes_only_uniqueness_glob:
  assumes "mset maps = mset maps'"
  shows "foundFailures (check_paths M maps pathsToCheck st)
      = foundFailures (check_paths M maps' pathsToCheck st)
    \<and> ((\<forall>f g a b. ev \<noteq> MultipleConfigMaps f g a b) \<longrightarrow>
         (ev \<in> set (entries (check_paths M maps pathsToCheck st))
            \<longleftrightarrow> ev \<in> set (entries (check_paths M maps' pathsToCheck st))))
    \<and> ((\<exists>g. MultipleConfigMaps f g a b \<in> set (entries (check_paths M maps pathsToCheck st)))
         \<longleftrightarrow> (\<exists>g. MultipleConfigMaps f g a b
                  \<in> set (entries (check_paths M maps' pathsToCheck st))))"
proof -
  have same_set: "set maps = set maps'"
    using assms by (rule mset_eq_setD)
  have same_count: "length (filter P maps) = length (filter P maps')" for P
    using assms by (rule filter_length_mset)
  have flag: "foundFailures (check_paths M maps pathsToCheck st)
      = foundFailures (check_paths M maps' pathsToCheck st)"
    by (simp only: check_paths_foundFailures same_set same_count)
  have other: "ev \<in> set (entries (check_paths M maps pathsToCheck st))
            \<longleftrightarrow> ev \<in> set (entries (check_paths M maps' pathsToCheck st))"
    if "\<And>f g a b. ev \<noteq> MultipleConfigMaps f g a b"
    by (simp only: check_paths_entries_other [OF that] same_set)
  have multi: "(\<exists>g. MultipleConfigMaps f g a b \<in> set (entries (check_paths M maps pathsToCheck st)))
         \<longleftrightarrow> (\<exists>g. MultipleConfigMaps f g a b
                  \<in> set (entries (check_paths M maps' pathsToCheck st)))"
    by (simp only: check_paths_entries_multi same_count)
  from flag other multi show ?thesis by blast
qed

theorem rule_order_changes_only_uniqueness_glob_witness:
  "mset [(''dir/*.yaml'', BundleA), (''dir/foo.*'', BundleB)]
     = mset [(''dir/foo.*'', BundleB), (''dir/*.yaml'', BundleA)]
   \<and> foundFailures (check_paths demo_Match
        [(''dir/*.yaml'', BundleA), (''dir/foo.*'', BundleB)] [foo_yaml] start)
      = foundFailures (check_paths demo_Match
        [(''dir/foo.*'', BundleB), (''dir/*.yaml'', BundleA)] [foo_yaml] start)
   \<and> (UnexpectedConfigMap ''dir/foo.yaml'' ''dir/foo.*'' ''BundleB'' ''BundleA''
        \<in> set (entries (check_paths demo_Match
            [(''dir/*.yaml'', BundleA), (''dir/foo.*'', BundleB)] [foo_yaml] start)))
      = (UnexpectedConfigMap ''dir/foo.yaml'' ''dir/foo.*'' ''BundleB'' ''BundleA''
        \<in> set (entries (check_paths demo_Match
            [(''dir/foo.*'', BundleB), (''dir/*.yaml'', BundleA)] [foo_yaml] start)))"
proof -
  have h: "mset [(''dir/*.yaml'', BundleA), (''dir/foo.*'', BundleB)]
     = mset [(''dir/foo.*'', BundleB), (''dir/*.yaml'', BundleA)]"
    by (simp add: add_mset_commute)
  show ?thesis
    using h rule_order_changes_only_uniqueness_glob [OF h,
        of demo_Match "[foo_yaml]" start
          "UnexpectedConfigMap ''dir/foo.yaml'' ''dir/foo.*'' ''BundleB'' ''BundleA''"]
    by simp
qed

text \<open>
  The two orders of the rules \<open>dir/*.yaml\<close> and \<open>dir/foo.*\<close> give different sets of
  records for \<open>dir/foo.yaml\<close>.
\<close>

theorem rule_order_changes_failure_set:
  "mset [(''dir/*.yaml'', BundleA), (''dir/foo.*'', BundleB)]
     = mset [(''dir/foo.*'', BundleB), (''dir/*.yaml'', BundleA)]
   \<and> MultipleConfigMaps ''dir/foo.yaml'' ''dir/foo.*'' ''BundleA'' ''BundleA''
        \<in> set (entries (check_paths demo_Match
            [(''dir/*.yaml'', BundleA), (''dir/foo.*'', BundleB)] [foo_yaml] start))
   \<and> MultipleConfigMaps ''dir/foo.yaml'' ''dir/foo.*'' ''BundleA'' ''BundleA''
        \<notin> set (entries (check_paths demo_Match
            [(''dir/foo.*'', BundleB), (''dir/*.yaml'', BundleA)] [foo_yaml] start))"
  by (simp add: check_paths_def check_path_def rule_step_def Let_def part_fields run_defs
      foo_yaml_def add_mset_commute)

section \<open>Configuration files with the same key\<close>

text \<open>
  C9. The callback of the configuration walk stores each file under its key and
  writes nothing to the log. After the walk the index holds, for a key, the file with
  that key that was visited last, and every visited file stays in the list of paths
  to check. An injection reference with that key is then checked against the bundle of
  that last file only: by the loop body, by \<open>checkSpec\<close> and in a run of \<open>main\<close>, a
  wrong-shard record for the key is written exactly for a reference whose bundle
  differs from the bundle of the last file, the record names that bundle as the
  expected one, and no unknown-key record is written for the key.
\<close>

theorem last_file_of_a_key_is_indexed:
  assumes "\<forall>b\<in>set ys. Basename b \<noteq> Basename a"
  shows "snd (fold (ciop_callback rel) (xs @ a # ys) acc) (Basename a) = Some a
    \<and> fst (fold (ciop_callback rel) (xs @ a # ys) acc) =
        fst acc @ map (\<lambda>info. \<lparr>path = rel (Filename info), configMap = ConfigMapName info\<rparr>)
                    (xs @ a # ys)
    \<and> (env_Name env = ''CONFIG_SPEC'' \<and> ValueFrom env = Some vf
         \<and> ConfigMapKeyRef vf = Some r \<and> Key r = Basename a \<longrightarrow>
        check_env relPath name (snd (fold (ciop_callback rel) (xs @ a # ys) acc)) i env (found, lg) =
          (if ref_Name r \<noteq> ConfigMapName a
           then (True, lg @ [InvalidShard relPath name i (Key r) (ref_Name r) (ConfigMapName a)])
           else (found, lg)))
    \<and> (InvalidShard f j c (Basename a) got ex
          \<in> set (snd (checkSpec spec relPath name
                        (snd (fold (ciop_callback rel) (xs @ a # ys) acc)) lg)) \<longleftrightarrow>
        InvalidShard f j c (Basename a) got ex \<in> set lg
        \<or> (f = relPath \<and> j = name \<and> c < length (Containers spec)
           \<and> (\<exists>e\<in>set (Env (Containers spec ! c)). env_Name e = ''CONFIG_SPEC''
                 \<and> (\<exists>vf r. ValueFrom e = Some vf \<and> ConfigMapKeyRef vf = Some r
                       \<and> Key r = Basename a \<and> ref_Name r = got))
           \<and> ex = ConfigMapName a \<and> got \<noteq> ConfigMapName a))
    \<and> (UnknownKey f j c (Basename a)
          \<in> set (snd (checkSpec spec relPath name
                        (snd (fold (ciop_callback rel) (xs @ a # ys) acc)) lg)) \<longleftrightarrow>
        UnknownKey f j c (Basename a) \<in> set lg)
    \<and> (InvalidShard f j c (Basename a) got ex
          \<in> set (snd (main M rel maps (xs @ a # ys, None) (files, None))) \<longleftrightarrow>
        (\<exists>jf\<in>set files. \<exists>jb\<in>set (jobs_of (fst jf)). \<exists>spec. Spec jb = Some spec
           \<and> f = rel (job_Filename (snd jf)) \<and> j = job_Name jb
           \<and> c < length (Containers spec)
           \<and> (\<exists>e\<in>set (Env (Containers spec ! c)). env_Name e = ''CONFIG_SPEC''
                 \<and> (\<exists>vf r. ValueFrom e = Some vf \<and> ConfigMapKeyRef vf = Some r
                       \<and> Key r = Basename a \<and> ref_Name r = got)))
        \<and> ex = ConfigMapName a \<and> got \<noteq> ConfigMapName a)
    \<and> UnknownKey f j c (Basename a)
          \<notin> set (snd (main M rel maps (xs @ a # ys, None) (files, None)))"
proof -
  have idx: "snd (fold (ciop_callback rel) (xs @ a # ys) acc) (Basename a) = Some a" for acc
    using assms by (simp add: ciop_index_other) (simp add: ciop_callback_def)
  have paths: "fst (fold (ciop_callback rel) (xs @ a # ys) acc) =
        fst acc @ map (\<lambda>info. \<lparr>path = rel (Filename info), configMap = ConfigMapName info\<rparr>)
                    (xs @ a # ys)"
    by (rule ciop_paths)
  have refs: "check_env relPath name (snd (fold (ciop_callback rel) (xs @ a # ys) acc)) i env
          (found, lg) =
        (if ref_Name r \<noteq> ConfigMapName a
         then (True, lg @ [InvalidShard relPath name i (Key r) (ref_Name r) (ConfigMapName a)])
         else (found, lg))"
    if "env_Name env = ''CONFIG_SPEC''" "ValueFrom env = Some vf"
      "ConfigMapKeyRef vf = Some r" "Key r = Basename a"
    using that idx [of acc] by (simp add: check_env_def)
  have spec_invalid: "InvalidShard f j c (Basename a) got ex
          \<in> set (snd (checkSpec spec relPath name
                        (snd (fold (ciop_callback rel) (xs @ a # ys) acc)) lg)) \<longleftrightarrow>
        InvalidShard f j c (Basename a) got ex \<in> set lg
        \<or> (f = relPath \<and> j = name \<and> c < length (Containers spec)
           \<and> (\<exists>e\<in>set (Env (Containers spec ! c)). env_Name e = ''CONFIG_SPEC''
                 \<and> (\<exists>vf r. ValueFrom e = Some vf \<and> ConfigMapKeyRef vf = Some r
                       \<and> Key r = Basename a \<and> ref_Name r = got))
           \<and> ex = ConfigMapName a \<and> got \<noteq> ConfigMapName a)"
    unfolding checkSpec_invalid idx by (simp; blast)
  have spec_unknown: "UnknownKey f j c (Basename a)
          \<in> set (snd (checkSpec spec relPath name
                        (snd (fold (ciop_callback rel) (xs @ a # ys) acc)) lg)) \<longleftrightarrow>
        UnknownKey f j c (Basename a) \<in> set lg"
    unfolding checkSpec_unknown idx by simp
  have main_invalid': "InvalidShard f j c (Basename a) got ex
          \<in> set (snd (main M rel maps (xs @ a # ys, None) (files, None))) \<longleftrightarrow>
        (\<exists>jf\<in>set files. \<exists>jb\<in>set (jobs_of (fst jf)). \<exists>spec. Spec jb = Some spec
           \<and> f = rel (job_Filename (snd jf)) \<and> j = job_Name jb
           \<and> c < length (Containers spec)
           \<and> (\<exists>e\<in>set (Env (Containers spec ! c)). env_Name e = ''CONFIG_SPEC''
                 \<and> (\<exists>vf r. ValueFrom e = Some vf \<and> ConfigMapKeyRef vf = Some r
                       \<and> Key r = Basename a \<and> ref_Name r = got)))
        \<and> ex = ConfigMapName a \<and> got \<noteq> ConfigMapName a"
    unfolding main_invalid idx by (simp; blast)
  have main_unknown': "UnknownKey f j c (Basename a)
          \<notin> set (snd (main M rel maps (xs @ a # ys, None) (files, None)))"
    unfolding main_unknown idx by simp
  from idx [of acc] paths refs spec_invalid spec_unknown main_invalid' main_unknown'
  show ?thesis by blast
qed

theorem last_file_of_a_key_is_indexed_witness:
  "snd (fold (ciop_callback id) [a_k1, info_k1] ([], Map.empty)) ''k1'' = Some info_k1
   \<and> check_env ''ci-operator/jobs/org/repo/j.yaml'' ''job''
        (snd (fold (ciop_callback id) [a_k1, info_k1] ([], Map.empty))) 0 env_k1 (False, [])
      = (True, [InvalidShard ''ci-operator/jobs/org/repo/j.yaml'' ''job'' 0 ''k1''
                  ''BundleX'' ''BundleY''])
   \<and> InvalidShard ''ci-operator/jobs/org/repo/j.yaml'' ''job'' 0 ''k1'' ''BundleX'' ''BundleY''
        \<in> set (snd (main demo_Match id shards ([a_k1, info_k1], None) ([job_k1], None)))
   \<and> main demo_Match id shards ([a_k1, info_k1], None) ([job_k1], None)
      = (1, [InvalidShard ''ci-operator/jobs/org/repo/j.yaml'' ''job'' 0 ''k1''
               ''BundleX'' ''BundleY'',
             FatalExit
               ''Found configurations that do not belong to the correct auto-updating config''])
   \<and> main demo_Match id shards ([info_k1, a_k1], None) ([job_k1], None) = (0, [])"
proof -
  have last: "\<forall>b\<in>set []. Basename b \<noteq> Basename info_k1"
    by simp
  have index: "snd (fold (ciop_callback id) [a_k1, info_k1] ([], Map.empty)) ''k1'' = Some info_k1"
    using last_file_of_a_key_is_indexed [OF last, where xs = "[a_k1]" and rel = id
        and acc = "([], Map.empty)", THEN conjunct1]
    by (simp add: info_k1_def)
  have entry: "check_env ''ci-operator/jobs/org/repo/j.yaml'' ''job''
        (snd (fold (ciop_callback id) [a_k1, info_k1] ([], Map.empty))) 0 env_k1 (False, [])
      = (True, [InvalidShard ''ci-operator/jobs/org/repo/j.yaml'' ''job'' 0 ''k1''
                  ''BundleX'' ''BundleY''])"
    using last_file_of_a_key_is_indexed [OF last, where xs = "[a_k1]" and rel = id
        and env = env_k1
        and vf = "\<lparr>ConfigMapKeyRef = Some \<lparr>ref_Name = ''BundleX'', Key = ''k1''\<rparr>\<rparr>"
        and r = "\<lparr>ref_Name = ''BundleX'', Key = ''k1''\<rparr>"
        and relPath = "''ci-operator/jobs/org/repo/j.yaml''" and name = "''job''"
        and acc = "([], Map.empty)" and i = 0 and found = False and lg = "[]",
        THEN conjunct2, THEN conjunct2, THEN conjunct1]
    by (simp add: info_k1_def env_k1_def)
  have member: "InvalidShard ''ci-operator/jobs/org/repo/j.yaml'' ''job'' 0 ''k1''
        ''BundleX'' ''BundleY''
        \<in> set (snd (main demo_Match id shards ([a_k1, info_k1], None) ([job_k1], None)))"
    using last_file_of_a_key_is_indexed [OF last, where xs = "[a_k1]" and rel = id
        and f = "''ci-operator/jobs/org/repo/j.yaml''" and j = "''job''" and c = 0
        and got = "''BundleX''" and ex = "''BundleY''" and M = demo_Match and maps = shards
        and files = "[job_k1]",
        THEN conjunct2, THEN conjunct2, THEN conjunct2, THEN conjunct2, THEN conjunct2,
        THEN conjunct1]
    by (simp add: info_k1_def job_k1_def jobs_of_def env_k1_def)
  have failing: "main demo_Match id shards ([a_k1, info_k1], None) ([job_k1], None)
      = (1, [InvalidShard ''ci-operator/jobs/org/repo/j.yaml'' ''job'' 0 ''k1''
               ''BundleX'' ''BundleY'',
             FatalExit
               ''Found configurations that do not belong to the correct auto-updating config''])"
    by (simp add: main_defs demo_Match_def DefaultClusterAlias_def shards_def shardX_def
        shardY_def job_k1_def a_k1_def info_k1_def env_k1_def)
  have passing: "main demo_Match id shards ([info_k1, a_k1], None) ([job_k1], None) = (0, [])"
    by (simp add: main_defs demo_Match_def DefaultClusterAlias_def shards_def shardX_def
        shardY_def job_k1_def a_k1_def info_k1_def env_k1_def)
  from index entry member failing passing show ?thesis by blast
qed

section \<open>Init containers\<close>

text \<open>
  C10. \<open>checkSpec\<close> reads the \<open>Containers\<close> of a pod specification only: replacing the
  init containers by any others, whatever their environment entries, changes neither
  the returned flag nor the records written.
\<close>

theorem init_containers_ignored:
  "checkSpec spec relPath name configInfos lg =
     checkSpec \<lparr>InitContainers = ics, Containers = Containers spec\<rparr> relPath name configInfos lg"
  by (simp add: checkSpec_def)

theorem init_containers_ignored_witness:
  "checkSpec \<lparr>InitContainers = [\<lparr>Env = [env_k1]\<rparr>], Containers = []\<rparr>
      ''ci-operator/jobs/org/repo/j.yaml'' ''job'' Map.empty [] = (False, [])"
  using init_containers_ignored [of "\<lparr>InitContainers = [\<lparr>Env = [env_k1]\<rparr>], Containers = []\<rparr>"
      "''ci-operator/jobs/org/repo/j.yaml''" "''job''" Map.empty "[]" "[]"]
  by (simp add: checkSpec_def)

end
